theory Spec2Isabelle
  imports Complex_Main "HOL-Library.Multiset" "HOL-Library.Sublist"
begin

section \<open>Data model\<close>

text \<open>
  Modelled from the spec: the table declarations (\<open>customer-order.sql\<close>) are not part of the
  sources; the columns are those listed in \<open>setup.md\<close>, with the types the specification
  gives them. A customer has a unique integer id and optional free-text attributes; an order
  has a unique integer id, a required customer reference, a calendar date \<open>order_date\<close>, a
  decimal \<open>total\<close> and a free-text \<open>status\<close>. Calendar dates and timestamps are integers (day
  numbers, clock ticks); decimal amounts and JavaScript numbers are exact rationals.
  Field names carry the table alias the queries use (\<open>c.id\<close> is \<open>c_id\<close>, \<open>o.total\<close> is
  \<open>o_total\<close>).
\<close>

type_synonym date = int
type_synonym timestamp = int

record customer_row =
  c_id :: int
  c_name :: "string option"
  c_email :: "string option"
  c_phone :: "string option"
  c_address :: "string option"
  c_city :: "string option"
  c_country :: "string option"
  c_created_at :: timestamp
  c_updated_at :: timestamp

record order_row =
  o_id :: int
  o_customer_id :: int
  o_order_date :: date
  o_total :: rat
  o_status :: string
  o_shipping_address :: "string option"
  o_payment_method :: "string option"
  o_created_at :: timestamp
  o_updated_at :: timestamp

record database =
  customers :: "customer_row list"
  orders :: "order_row list"

section \<open>JavaScript values\<close>

text \<open>
  \<open>req.query\<close> maps a parameter name to its string value; an absent parameter is
  \<open>undefined\<close>, here \<open>None\<close>. Every parameter is given at most once, so that its value
  is a string.
\<close>

type_synonym query_string = "string \<Rightarrow> string option"

text \<open>
  \<open>parseInt(string)\<close> of ECMAScript, without a radix argument: leading white space is
  skipped, a sign is read, a \<open>0x\<close> prefix selects radix 16, and the longest prefix of digits
  is the value; no digit at all gives \<open>NaN\<close>, here \<open>None\<close>. \<open>parseInt(undefined)\<close> is
  \<open>NaN\<close>. Only the ASCII white space characters are modelled, and the value is not rounded
  to a double.
\<close>

definition isStrWhiteSpaceChar :: "char \<Rightarrow> bool" where
  "isStrWhiteSpaceChar c \<longleftrightarrow> (of_char c :: nat) \<in> set [32, 9, 10, 11, 12, 13]"

definition digitValue :: "char \<Rightarrow> nat option" where
  "digitValue c =
     (let n = (of_char c :: nat) in
      if 48 \<le> n \<and> n \<le> 57 then Some (n - 48)
      else if 97 \<le> n \<and> n \<le> 122 then Some (n - 87)
      else if 65 \<le> n \<and> n \<le> 90 then Some (n - 55)
      else None)"

fun radixDigits :: "nat \<Rightarrow> string \<Rightarrow> nat list" where
  "radixDigits R [] = []"
| "radixDigits R (c # s) =
     (case digitValue c of
        None \<Rightarrow> []
      | Some d \<Rightarrow> if d < R then d # radixDigits R s else [])"

definition parseInt :: "string option \<Rightarrow> int option" where
  "parseInt input =
     (case input of
        None \<Rightarrow> None
      | Some inputString \<Rightarrow>
          let S = dropWhile isStrWhiteSpaceChar inputString;
              sign = (if S \<noteq> [] \<and> hd S = CHR ''-'' then - 1 else (1::int));
              S = (if S \<noteq> [] \<and> (hd S = CHR ''+'' \<or> hd S = CHR ''-'') then tl S else S);
              stripPrefix =
                (case S of
                   a # b # _ \<Rightarrow> a = CHR ''0'' \<and> (b = CHR ''x'' \<or> b = CHR ''X'')
                 | _ \<Rightarrow> False);
              R = (if stripPrefix then 16 else (10::nat));
              S = (if stripPrefix then drop 2 S else S);
              Z = radixDigits R S
          in if Z = [] then None
             else Some (sign * int (foldl (\<lambda>a d. a * R + d) 0 Z)))"

text \<open>
  \<open>Number.MAX_SAFE_INTEGER\<close>: every integer up to it is a JavaScript number, and a
  difference or a product of such integers that stays within it is exact.
\<close>

definition MAX_SAFE_INTEGER :: int where
  "MAX_SAFE_INTEGER = 2 ^ 53 - 1"

text \<open>\<open>x || d\<close> for a number \<open>x\<close>: \<open>NaN\<close> and \<open>0\<close> are falsy.\<close>

definition number_or :: "int option \<Rightarrow> int \<Rightarrow> int" where
  "number_or x d = (case x of None \<Rightarrow> d | Some n \<Rightarrow> if n = 0 then d else n)"

text \<open>\<open>s || ''\<close> for a query parameter \<open>s\<close>: \<open>undefined\<close> and the empty string are falsy.\<close>

definition string_or_empty :: "string option \<Rightarrow> string" where
  "string_or_empty s = (case s of None \<Rightarrow> [] | Some t \<Rightarrow> t)"

text \<open>\<open>Math.ceil\<close>, and \<open>/\<close> on numbers: a zero divisor gives a non-finite value, here \<open>None\<close>.\<close>

definition Math_ceil :: "rat \<Rightarrow> int" where
  "Math_ceil x = \<lceil>x\<rceil>"

definition js_divide :: "rat \<Rightarrow> rat \<Rightarrow> rat option" where
  "js_divide a b = (if b = 0 then None else Some (a / b))"

section \<open>Pagination envelope\<close>

record pagination =
  currentPage :: int
  totalPages :: int
  totalCount :: int
  hasNext :: bool
  hasPrev :: bool

text \<open>
  Both listing routers end with the same lines:
  \<open>totalPages = Math.ceil(totalCount / limit)\<close>, then the \<open>pagination\<close> object.
\<close>

definition paginate :: "int \<Rightarrow> int \<Rightarrow> int \<Rightarrow> pagination" where
  "paginate page limit cnt =
     (let pages = Math_ceil (of_int cnt / of_int limit) in
      \<lparr> currentPage = page,
        totalPages = pages,
        totalCount = cnt,
        hasNext = (page < pages),
        hasPrev = (page > 1) \<rparr>)"

section \<open>SQL aggregates\<close>

text \<open>\<open>SUM\<close> over no rows is \<open>NULL\<close>; \<open>COALESCE(x, d)\<close> replaces \<open>NULL\<close> by \<open>d\<close>.\<close>

definition sql_sum :: "rat list \<Rightarrow> rat option" where
  "sql_sum xs = (if xs = [] then None else Some (sum_list xs))"

definition coalesce :: "'a option \<Rightarrow> 'a \<Rightarrow> 'a" where
  "coalesce x d = (case x of None \<Rightarrow> d | Some v \<Rightarrow> v)"

definition sql_count :: "'a list \<Rightarrow> int" where
  "sql_count xs = int (length xs)"

section \<open>Dashboard router\<close>

record metrics =
  totalOrders :: int
  totalCustomers :: int
  totalRevenue :: rat
  pendingOrders :: int

text \<open>
  \<open>GET /api/dashboard\<close>: four aggregate queries, none of which takes a request parameter.
  \<open>parseInt\<close> and \<open>parseFloat\<close> read back the decimal text the driver returns for each
  aggregate, so they give the aggregate itself.
\<close>

definition dashboard :: "database \<Rightarrow> metrics" where
  "dashboard db =
     \<lparr> totalOrders = sql_count (orders db),
       totalCustomers = sql_count (customers db),
       totalRevenue =
         coalesce (sql_sum (map o_total
           (filter (\<lambda>r. o_status r \<in> set [''completed'', ''shipped'']) (orders db)))) 0,
       pendingOrders = sql_count (filter (\<lambda>r. o_status r = ''pending'') (orders db)) \<rparr>"

section \<open>Dashboard component: derived metrics\<close>

text \<open>
  \<open>metrics.totalRevenue / (metrics.totalOrders || 1)\<close> and
  \<open>((metrics.totalOrders - metrics.pendingOrders) / (metrics.totalOrders || 1)) * 100\<close>.
\<close>

definition averageOrderValue :: "metrics \<Rightarrow> rat option" where
  "averageOrderValue m =
     js_divide (totalRevenue m) (of_int (number_or (Some (totalOrders m)) 1))"

definition completionRate :: "metrics \<Rightarrow> rat option" where
  "completionRate m =
     map_option (\<lambda>q. q * 100)
       (js_divide (of_int (totalOrders m - pendingOrders m))
          (of_int (number_or (Some (totalOrders m)) 1)))"

section \<open>The database engine\<close>

text \<open>
  \<open>pool.query(text, values)\<close> runs one statement on PostgreSQL. The engine is not part of
  the repository; what the queries need of it is taken as parameters: the input conversions
  of the column types \<open>integer\<close> and \<open>date\<close> (a text that is not a valid value makes the
  statement fail), the value of \<open>CURRENT_DATE\<close>, and for which numbers \<open>n\<close> the engine can
  compute \<open>CURRENT_DATE - INTERVAL 'n days'\<close> (the interval and the resulting timestamp
  have to be in its ranges; otherwise the statement fails). A statement fails with an
  error, and the routers turn every failure into a 500 response. Two failures are not
  modelled: the pool always reaches the engine, and the engine's refusal of a text value
  that holds the NUL character is left out, a text being compared as it is.
\<close>

record engine =
  int4_in :: "string \<Rightarrow> int option"
  date_in :: "string \<Rightarrow> date option"
  current_date :: date
  accepts_days :: "int \<Rightarrow> bool"

datatype pg_error =
  invalid_text_representation
| numeric_value_out_of_range
| invalid_row_count_in_limit_clause
| invalid_row_count_in_result_offset_clause
| undefined_parameter

text \<open>The values the routers push on \<open>queryParams\<close>: strings and numbers.\<close>

datatype js_value = JString string | JNumber int

text \<open>The driver sends every value as text; a number is sent as its decimal digits.\<close>

definition decimal_digit :: "nat \<Rightarrow> char" where
  "decimal_digit d = ''0123456789'' ! d"

function decimal :: "nat \<Rightarrow> string" where
  "decimal n =
     (if n < 10 then [decimal_digit n]
      else decimal (n div 10) @ [decimal_digit (n mod 10)])"
  by pat_completeness auto
termination
  by (relation "measure (\<lambda>n. n)") auto

definition to_text :: "js_value \<Rightarrow> string" where
  "to_text v =
     (case v of
        JString s \<Rightarrow> s
      | JNumber n \<Rightarrow> if n < 0 then CHR ''-'' # decimal (nat (- n)) else decimal (nat n))"

text \<open>
  A parameter in a place of type \<open>integer\<close>, \<open>bigint\<close> or \<open>date\<close>. The routers pass a string
  for the column \<open>customer_id\<close>, of type \<open>integer\<close>, and numbers for \<open>LIMIT\<close> and \<open>OFFSET\<close>,
  of type \<open>bigint\<close>: the digits of a number are read back as the number when it lies
  between \<open>-2^63\<close> and \<open>2^63 - 1\<close>, and the statement fails when it does not.
\<close>

definition to_integer :: "engine \<Rightarrow> js_value \<Rightarrow> pg_error + int" where
  "to_integer eng v =
     (case v of
        JNumber n \<Rightarrow>
          if - (2 ^ 63) \<le> n \<and> n < 2 ^ 63 then Inr n else Inl numeric_value_out_of_range
      | JString s \<Rightarrow>
          (case int4_in eng s of None \<Rightarrow> Inl invalid_text_representation | Some k \<Rightarrow> Inr k))"

definition to_date :: "engine \<Rightarrow> js_value \<Rightarrow> pg_error + date" where
  "to_date eng v =
     (case date_in eng (to_text v) of
        None \<Rightarrow> Inl invalid_text_representation
      | Some d \<Rightarrow> Inr d)"

text \<open>The placeholder \<open>$n\<close> is the \<open>n\<close>-th value, counted from 1.\<close>

definition placeholder :: "js_value list \<Rightarrow> nat \<Rightarrow> pg_error + js_value" where
  "placeholder values n =
     (if 1 \<le> n \<and> n \<le> length values then Inr (values ! (n - 1)) else Inl undefined_parameter)"

text \<open>
  \<open>ORDER BY key DESC\<close> and \<open>ORDER BY key ASC\<close>. SQL fixes the order of two rows only when
  their keys differ; rows with equal keys come out in the order in which the engine happens
  to deliver them to the sort. That order is the parameter \<open>scan\<close> of every query below that
  sorts: some rearrangement of the rows, chosen by the engine.
\<close>

definition order_by_desc :: "('a \<Rightarrow> 'k::linordered_ab_group_add) \<Rightarrow> 'a list \<Rightarrow> 'a list" where
  "order_by_desc key rows = sort_key (\<lambda>r. - key r) rows"

definition order_by_asc :: "('a \<Rightarrow> 'k::linorder) \<Rightarrow> 'a list \<Rightarrow> 'a list" where
  "order_by_asc key rows = sort_key key rows"

text \<open>\<open>LIMIT l OFFSET k\<close>: a negative row count is an error.\<close>

definition limit_offset :: "int \<Rightarrow> int \<Rightarrow> 'a list \<Rightarrow> pg_error + 'a list" where
  "limit_offset l k rows =
     (if k < 0 then Inl invalid_row_count_in_result_offset_clause
      else if l < 0 then Inl invalid_row_count_in_limit_clause
      else Inr (take (nat l) (drop (nat k) rows)))"

text \<open>\<open>GROUP BY key\<close>: one group for each key value that occurs.\<close>

definition group_by :: "('a \<Rightarrow> 'k) \<Rightarrow> 'a list \<Rightarrow> ('k \<times> 'a list) list" where
  "group_by key rows = map (\<lambda>k. (k, filter (\<lambda>r. key r = k) rows)) (remdups (map key rows))"

text \<open>The non-\<open>NULL\<close> values of a column, as \<open>COUNT(column)\<close> and \<open>SUM(column)\<close> see them.\<close>

fun non_null :: "'a option list \<Rightarrow> 'a list" where
  "non_null [] = []"
| "non_null (None # xs) = non_null xs"
| "non_null (Some x # xs) = x # non_null xs"

text \<open>
  \<open>text ILIKE pattern\<close>: in the pattern \<open>%\<close> stands for any sequence of characters, \<open>_\<close> for
  any one character, and a backslash takes the next character literally; letters match
  without regard to case (ASCII here). A \<open>NULL\<close> text matches nothing.
\<close>

fun like :: "string \<Rightarrow> string \<Rightarrow> bool" where
  "like [] t = (t = [])"
| "like (p # ps) [] = (p = CHR ''%'' \<and> like ps [])"
| "like (p # ps) (c # t) =
     (if p = CHR ''%'' then like ps (c # t) \<or> like (p # ps) t
      else if p = CHR ''_'' then like ps t
      else if p = CHR 0x5C then (case ps of [] \<Rightarrow> False | e # ps' \<Rightarrow> c = e \<and> like ps' t)
      else c = p \<and> like ps t)"

definition to_lower :: "char \<Rightarrow> char" where
  "to_lower c =
     (if 65 \<le> (of_char c :: nat) \<and> (of_char c :: nat) \<le> 90
      then (case c of Char b0 b1 b2 b3 b4 b5 b6 b7 \<Rightarrow> Char b0 b1 b2 b3 b4 True b6 b7)
      else c)"

definition ilike :: "string option \<Rightarrow> string \<Rightarrow> bool" where
  "ilike str pattern =
     (case str of None \<Rightarrow> False | Some t \<Rightarrow> like (map to_lower pattern) (map to_lower t))"

text \<open>The response of a router: the JSON body, or status 500 with an error message.\<close>

datatype 'a response = Json 'a | Status500 string

text \<open>Running statements one after another: the first error ends the run.\<close>

definition and_then :: "'e + 'a \<Rightarrow> ('a \<Rightarrow> 'e + 'b) \<Rightarrow> 'e + 'b" where
  "and_then x f = (case x of Inl e \<Rightarrow> Inl e | Inr v \<Rightarrow> f v)"

section \<open>Orders router\<close>

text \<open>
  The filter clauses the router appends to \<open>query\<close> and to \<open>countQuery\<close>, each with the
  number of its placeholder:
  \<open>AND o.status = $n\<close>, \<open>AND o.customer_id = $n\<close>, \<open>AND o.order_date >= $n\<close>,
  \<open>AND o.order_date <= $n\<close>.
\<close>

datatype orders_predicate =
  status_eq nat
| customer_id_eq nat
| order_date_ge nat
| order_date_le nat

text \<open>
  The state of the builder: \<open>query\<close>, \<open>countQuery\<close>, \<open>queryParams\<close>, \<open>paramIndex\<close>.
  One \<open>if\<close> block of the router appends the clause to both texts, pushes the value and
  increments the index.
\<close>

type_synonym orders_builder =
  "orders_predicate list \<times> orders_predicate list \<times> js_value list \<times> nat"

definition add_filter ::
  "(nat \<Rightarrow> orders_predicate) \<Rightarrow> string \<Rightarrow> orders_builder \<Rightarrow> orders_builder" where
  "add_filter clause v b =
     (case b of (query, countQuery, queryParams, paramIndex) \<Rightarrow>
        (query @ [clause paramIndex], countQuery @ [clause paramIndex],
         queryParams @ [JString v], paramIndex + 1))"

definition orders_filters :: "query_string \<Rightarrow> orders_builder" where
  "orders_filters q =
     (let status = string_or_empty (q ''status'');
          customerId = string_or_empty (q ''customer_id'');
          startDate = string_or_empty (q ''start_date'');
          endDate = string_or_empty (q ''end_date'');
          b = ([], [], [], 1);
          b = (if status \<noteq> [] then add_filter status_eq status b else b);
          b = (if customerId \<noteq> [] then add_filter customer_id_eq customerId b else b);
          b = (if startDate \<noteq> [] then add_filter order_date_ge startDate b else b);
          b = (if endDate \<noteq> [] then add_filter order_date_le endDate b else b)
      in b)"

text \<open>A clause with its value bound is a condition on an order; binding fails on a bad value.\<close>

fun bind_predicate ::
  "engine \<Rightarrow> js_value list \<Rightarrow> orders_predicate \<Rightarrow> pg_error + (order_row \<Rightarrow> bool)" where
  "bind_predicate eng vs (status_eq n) =
     and_then (placeholder vs n) (\<lambda>v. Inr (\<lambda>r. o_status r = to_text v))"
| "bind_predicate eng vs (customer_id_eq n) =
     and_then (placeholder vs n) (\<lambda>v.
     and_then (to_integer eng v) (\<lambda>k. Inr (\<lambda>r. o_customer_id r = k)))"
| "bind_predicate eng vs (order_date_ge n) =
     and_then (placeholder vs n) (\<lambda>v.
     and_then (to_date eng v) (\<lambda>d. Inr (\<lambda>r. o_order_date r \<ge> d)))"
| "bind_predicate eng vs (order_date_le n) =
     and_then (placeholder vs n) (\<lambda>v.
     and_then (to_date eng v) (\<lambda>d. Inr (\<lambda>r. o_order_date r \<le> d)))"

fun bind_predicates ::
  "engine \<Rightarrow> js_value list \<Rightarrow> orders_predicate list \<Rightarrow> pg_error + (order_row \<Rightarrow> bool) list" where
  "bind_predicates eng vs [] = Inr []"
| "bind_predicates eng vs (p # ps) =
     and_then (bind_predicate eng vs p) (\<lambda>f.
     and_then (bind_predicates eng vs ps) (\<lambda>fs. Inr (f # fs)))"

text \<open>\<open>FROM orders o JOIN customers c ON o.customer_id = c.id\<close>\<close>

definition orders_from :: "database \<Rightarrow> (order_row \<times> customer_row) list" where
  "orders_from db =
     concat (map (\<lambda>r. map (Pair r) (filter (\<lambda>c. o_customer_id r = c_id c) (customers db)))
       (orders db))"

text \<open>\<open>WHERE 1=1\<close> and the clauses, all joined by \<open>AND\<close>.\<close>

definition orders_where ::
  "engine \<Rightarrow> database \<Rightarrow> orders_predicate list \<Rightarrow> js_value list \<Rightarrow>
   pg_error + (order_row \<times> customer_row) list" where
  "orders_where eng db clauses vs =
     and_then (bind_predicates eng vs clauses) (\<lambda>fs.
       Inr (filter (\<lambda>j. list_all (\<lambda>f. f (fst j)) fs) (orders_from db)))"

text \<open>\<open>SELECT o.*, c.name as customer_name, c.email as customer_email\<close>\<close>

record order_listing_row =
  order_columns :: order_row
  customer_name :: "string option"
  customer_email :: "string option"

definition orders_select :: "order_row \<times> customer_row \<Rightarrow> order_listing_row" where
  "orders_select j =
     \<lparr> order_columns = fst j, customer_name = c_name (snd j), customer_email = c_email (snd j) \<rparr>"

text \<open>The row query up to and including \<open>ORDER BY o.created_at DESC\<close>: all its rows.\<close>

definition orders_query_unpaginated ::
  "((order_row \<times> customer_row) list \<Rightarrow> (order_row \<times> customer_row) list) \<Rightarrow>
   engine \<Rightarrow> database \<Rightarrow> orders_predicate list \<Rightarrow> js_value list \<Rightarrow>
   pg_error + order_listing_row list" where
  "orders_query_unpaginated scan eng db clauses vs =
     and_then (orders_where eng db clauses vs) (\<lambda>rows.
       Inr (map orders_select (order_by_desc (\<lambda>j. o_created_at (fst j)) (scan rows))))"

text \<open>The row query, with \<open>LIMIT $l OFFSET $k\<close> at its end.\<close>

definition orders_query ::
  "((order_row \<times> customer_row) list \<Rightarrow> (order_row \<times> customer_row) list) \<Rightarrow>
   engine \<Rightarrow> database \<Rightarrow> orders_predicate list \<Rightarrow> nat \<Rightarrow> nat \<Rightarrow> js_value list \<Rightarrow>
   pg_error + order_listing_row list" where
  "orders_query scan eng db clauses l k vs =
     and_then (orders_query_unpaginated scan eng db clauses vs) (\<lambda>rows.
     and_then (placeholder vs l) (\<lambda>lv.
     and_then (to_integer eng lv) (\<lambda>lim.
     and_then (placeholder vs k) (\<lambda>kv.
     and_then (to_integer eng kv) (\<lambda>off.
       limit_offset lim off rows)))))"

text \<open>The count query: \<open>SELECT COUNT(*)\<close> over the same \<open>FROM\<close> and \<open>WHERE\<close>.\<close>

definition orders_count_query ::
  "engine \<Rightarrow> database \<Rightarrow> orders_predicate list \<Rightarrow> js_value list \<Rightarrow> pg_error + int" where
  "orders_count_query eng db clauses vs =
     and_then (orders_where eng db clauses vs) (\<lambda>rows. Inr (sql_count rows))"

record orders_body =
  orders_rows :: "order_listing_row list"
  orders_pagination :: pagination

text \<open>
  \<open>GET /api/orders\<close>. \<open>Promise.all\<close> rejects when either statement fails, and the
  \<open>catch\<close> block answers 500.
\<close>

definition orders_get ::
  "((order_row \<times> customer_row) list \<Rightarrow> (order_row \<times> customer_row) list) \<Rightarrow>
   engine \<Rightarrow> database \<Rightarrow> query_string \<Rightarrow> orders_body response" where
  "orders_get scan eng db q =
     (let page = number_or (parseInt (q ''page'')) 1;
          limit = number_or (parseInt (q ''limit'')) 10;
          offset = (page - 1) * limit
      in case orders_filters q of (query, countQuery, queryParams, paramIndex) \<Rightarrow>
        (let queryParams = queryParams @ [JNumber limit, JNumber offset] in
         case (orders_query scan eng db query paramIndex (paramIndex + 1) queryParams,
               orders_count_query eng db countQuery
                 (take (length queryParams - 2) queryParams)) of
           (Inr ordersResult, Inr countResult) \<Rightarrow>
             Json \<lparr> orders_rows = ordersResult,
                    orders_pagination = paginate page limit countResult \<rparr>
         | _ \<Rightarrow> Status500 ''Failed to fetch orders''))"

section \<open>Customers router\<close>

text \<open>The one filter clause: \<open>WHERE c.name ILIKE $n OR c.email ILIKE $n\<close>.\<close>

datatype customers_predicate = name_or_email_ilike nat

text \<open>
  The router's \<open>query\<close>, \<open>countQuery\<close>, \<open>queryParams\<close> and \<open>countParams\<close> after the
  \<open>if (search)\<close> block; the value pushed is the template string \<open>%${search}%\<close>.
\<close>

definition customers_filters ::
  "query_string \<Rightarrow>
   customers_predicate list \<times> customers_predicate list \<times> js_value list \<times> js_value list" where
  "customers_filters q =
     (let search = string_or_empty (q ''search'') in
      if search \<noteq> []
      then ([name_or_email_ilike 1], [name_or_email_ilike 1],
            [JString (''%'' @ search @ ''%'')], [JString (''%'' @ search @ ''%'')])
      else ([], [], [], []))"

fun bind_customers_predicate ::
  "js_value list \<Rightarrow> customers_predicate \<Rightarrow> pg_error + (customer_row \<Rightarrow> bool)" where
  "bind_customers_predicate vs (name_or_email_ilike n) =
     and_then (placeholder vs n) (\<lambda>v.
       Inr (\<lambda>c. ilike (c_name c) (to_text v) \<or> ilike (c_email c) (to_text v)))"

fun bind_customers_predicates ::
  "js_value list \<Rightarrow> customers_predicate list \<Rightarrow> pg_error + (customer_row \<Rightarrow> bool) list" where
  "bind_customers_predicates vs [] = Inr []"
| "bind_customers_predicates vs (p # ps) =
     and_then (bind_customers_predicate vs p) (\<lambda>f.
     and_then (bind_customers_predicates vs ps) (\<lambda>fs. Inr (f # fs)))"

text \<open>
  \<open>FROM customers c LEFT JOIN orders o ON c.id = o.customer_id\<close>: a customer without
  orders gives one row whose order columns are \<open>NULL\<close>.
\<close>

definition customers_from :: "database \<Rightarrow> (customer_row \<times> order_row option) list" where
  "customers_from db =
     concat (map (\<lambda>c. map (Pair c)
         (case filter (\<lambda>r. c_id c = o_customer_id r) (orders db) of
            [] \<Rightarrow> [None]
          | ms \<Rightarrow> map Some ms))
       (customers db))"

text \<open>
  \<open>SELECT c.*, COUNT(o.id) as order_count, COALESCE(SUM(o.total), 0) as total_spent\<close>
  of one group of \<open>GROUP BY c.id\<close>; the columns \<open>c.*\<close> are those of the group's rows.
\<close>

record customer_listing_row =
  customer_columns :: customer_row
  order_count :: int
  total_spent :: rat

fun customers_select ::
  "int \<times> (customer_row \<times> order_row option) list \<Rightarrow> customer_listing_row list" where
  "customers_select (k, []) = []"
| "customers_select (k, (c, x) # g) =
     [\<lparr> customer_columns = c,
        order_count = sql_count (non_null (map (map_option o_id \<circ> snd) ((c, x) # g))),
        total_spent =
          coalesce (sql_sum (non_null (map (map_option o_total \<circ> snd) ((c, x) # g)))) 0 \<rparr>]"

text \<open>The row query up to and including \<open>GROUP BY c.id ORDER BY c.created_at DESC\<close>.\<close>

definition customers_query_unpaginated ::
  "(customer_listing_row list \<Rightarrow> customer_listing_row list) \<Rightarrow>
   database \<Rightarrow> customers_predicate list \<Rightarrow> js_value list \<Rightarrow>
   pg_error + customer_listing_row list" where
  "customers_query_unpaginated scan db clauses vs =
     and_then (bind_customers_predicates vs clauses) (\<lambda>fs.
       Inr (order_by_desc (\<lambda>row. c_created_at (customer_columns row))
         (scan (concat (map customers_select
           (group_by (\<lambda>j. c_id (fst j))
             (filter (\<lambda>j. list_all (\<lambda>f. f (fst j)) fs) (customers_from db))))))))"

text \<open>The row query, with \<open>LIMIT $l OFFSET $k\<close> at its end.\<close>

definition customers_query ::
  "(customer_listing_row list \<Rightarrow> customer_listing_row list) \<Rightarrow>
   engine \<Rightarrow> database \<Rightarrow> customers_predicate list \<Rightarrow> nat \<Rightarrow> nat \<Rightarrow> js_value list \<Rightarrow>
   pg_error + customer_listing_row list" where
  "customers_query scan eng db clauses l k vs =
     and_then (customers_query_unpaginated scan db clauses vs) (\<lambda>rows.
     and_then (placeholder vs l) (\<lambda>lv.
     and_then (to_integer eng lv) (\<lambda>lim.
     and_then (placeholder vs k) (\<lambda>kv.
     and_then (to_integer eng kv) (\<lambda>off.
       limit_offset lim off rows)))))"

text \<open>The count query: \<open>SELECT COUNT(*) FROM customers c\<close> and the clause.\<close>

definition customers_count_query ::
  "database \<Rightarrow> customers_predicate list \<Rightarrow> js_value list \<Rightarrow> pg_error + int" where
  "customers_count_query db clauses vs =
     and_then (bind_customers_predicates vs clauses) (\<lambda>fs.
       Inr (sql_count (filter (\<lambda>c. list_all (\<lambda>f. f c) fs) (customers db))))"

record customers_body =
  customers_rows :: "customer_listing_row list"
  customers_pagination :: pagination

text \<open>\<open>GET /api/customers\<close>\<close>

definition customers_get ::
  "(customer_listing_row list \<Rightarrow> customer_listing_row list) \<Rightarrow>
   engine \<Rightarrow> database \<Rightarrow> query_string \<Rightarrow> customers_body response" where
  "customers_get scan eng db q =
     (let page = number_or (parseInt (q ''page'')) 1;
          limit = number_or (parseInt (q ''limit'')) 10;
          offset = (page - 1) * limit
      in case customers_filters q of (query, countQuery, queryParams, countParams) \<Rightarrow>
        (let l = length queryParams + 1;
             k = length queryParams + 2;
             queryParams = queryParams @ [JNumber limit, JNumber offset] in
         case (customers_query scan eng db query l k queryParams,
               customers_count_query db countQuery countParams) of
           (Inr customersResult, Inr countResult) \<Rightarrow>
             Json \<lparr> customers_rows = customersResult,
                    customers_pagination = paginate page limit countResult \<rparr>
         | _ \<Rightarrow> Status500 ''Failed to fetch customers''))"

section \<open>Charts router\<close>

text \<open>
  \<open>GET /api/charts/orders-over-time\<close>. The number \<open>days\<close> is written into the statement
  text, \<open>WHERE order_date >= CURRENT_DATE - INTERVAL 'days days'\<close>; the statement has no
  placeholder. The statement fails when the engine cannot compute the lower end of the
  window. Rows are grouped by \<open>DATE(order_date)\<close>, the date itself, and sorted by date. A
  group is never empty, so \<open>SUM(total)\<close> is the sum of the group.
\<close>

record orders_over_time_row =
  ot_date :: date
  ot_order_count :: int
  ot_revenue :: rat

definition orders_over_time_select :: "date \<times> order_row list \<Rightarrow> orders_over_time_row" where
  "orders_over_time_select g =
     \<lparr> ot_date = fst g,
       ot_order_count = sql_count (snd g),
       ot_revenue = sum_list (map o_total (snd g)) \<rparr>"

definition orders_over_time ::
  "(orders_over_time_row list \<Rightarrow> orders_over_time_row list) \<Rightarrow>
   engine \<Rightarrow> database \<Rightarrow> query_string \<Rightarrow> orders_over_time_row list response" where
  "orders_over_time scan eng db q =
     (let days = number_or (parseInt (q ''days'')) 30 in
      if accepts_days eng days
      then Json (order_by_asc ot_date
        (scan (map orders_over_time_select
          (group_by o_order_date
            (filter (\<lambda>r. o_order_date r \<ge> current_date eng - days) (orders db))))))
      else Status500 ''Failed to fetch orders over time data'')"

text \<open>
  \<open>GET /api/charts/revenue-by-customer\<close>:
  \<open>FROM customers c JOIN orders o ON c.id = o.customer_id WHERE o.status = 'completed'
  GROUP BY c.id, c.name ORDER BY total_revenue DESC LIMIT $1\<close>.
\<close>

record revenue_by_customer_row =
  rc_name :: "string option"
  rc_total_revenue :: rat
  rc_order_count :: int

definition revenue_by_customer_from :: "database \<Rightarrow> (customer_row \<times> order_row) list" where
  "revenue_by_customer_from db =
     concat (map (\<lambda>c. map (Pair c) (filter (\<lambda>r. c_id c = o_customer_id r) (orders db)))
       (customers db))"

definition revenue_by_customer_select ::
  "(int \<times> string option) \<times> (customer_row \<times> order_row) list \<Rightarrow> revenue_by_customer_row" where
  "revenue_by_customer_select g =
     \<lparr> rc_name = snd (fst g),
       rc_total_revenue = sum_list (map (\<lambda>j. o_total (snd j)) (snd g)),
       rc_order_count = sql_count (map (\<lambda>j. o_id (snd j)) (snd g)) \<rparr>"

text \<open>The statement up to and including \<open>ORDER BY total_revenue DESC\<close>.\<close>

definition revenue_by_customer_ranking ::
  "(revenue_by_customer_row list \<Rightarrow> revenue_by_customer_row list) \<Rightarrow>
   database \<Rightarrow> revenue_by_customer_row list" where
  "revenue_by_customer_ranking scan db =
     order_by_desc rc_total_revenue
       (scan (map revenue_by_customer_select
         (group_by (\<lambda>j. (c_id (fst j), c_name (fst j)))
           (filter (\<lambda>j. o_status (snd j) = ''completed'') (revenue_by_customer_from db)))))"

definition revenue_by_customer ::
  "(revenue_by_customer_row list \<Rightarrow> revenue_by_customer_row list) \<Rightarrow>
   engine \<Rightarrow> database \<Rightarrow> query_string \<Rightarrow> revenue_by_customer_row list response" where
  "revenue_by_customer scan eng db q =
     (let limit = number_or (parseInt (q ''limit'')) 10 in
      case and_then (placeholder [JNumber limit] 1) (\<lambda>lv.
           and_then (to_integer eng lv) (\<lambda>lim.
             if lim < 0 then Inl invalid_row_count_in_limit_clause
             else Inr (take (nat lim) (revenue_by_customer_ranking scan db)))) of
        Inr result \<Rightarrow> Json result
      | Inl e \<Rightarrow> Status500 ''Failed to fetch revenue by customer data'')"

section \<open>The properties, as the specification words them\<close>

text \<open>The number of the placeholder a clause refers to.\<close>

fun placeholder_of :: "orders_predicate \<Rightarrow> nat" where
  "placeholder_of (status_eq n) = n"
| "placeholder_of (customer_id_eq n) = n"
| "placeholder_of (order_date_ge n) = n"
| "placeholder_of (order_date_le n) = n"

text \<open>
  What holds of the builder after every \<open>if\<close> block: both texts carry the same clauses, and
  the clauses refer to the placeholders \<open>$1\<close>, \<open>$2\<close>, ... in the order of the pushed values.
\<close>

definition builder_ok :: "orders_builder \<Rightarrow> bool" where
  "builder_ok b =
     (case b of (query, countQuery, queryParams, paramIndex) \<Rightarrow>
        countQuery = query \<and> paramIndex = length queryParams + 1
        \<and> map placeholder_of query = [1..<paramIndex])"

text \<open>
  The pagination envelope as the specification words it, for page \<open>p\<close> and limit \<open>l\<close>:
  \<open>totalPages\<close> is the ceiling of \<open>totalCount / l\<close>, that is the least number of pages of
  \<open>l\<close> rows that hold \<open>totalCount\<close> rows; no rows give no pages; \<open>hasNext\<close> is
  \<open>p < totalPages\<close> and \<open>hasPrev\<close> is \<open>p > 1\<close>.
\<close>

definition envelope_as_specified :: "int \<Rightarrow> int \<Rightarrow> pagination \<Rightarrow> bool" where
  "envelope_as_specified p l pg \<longleftrightarrow>
     currentPage pg = p
     \<and> totalPages pg = \<lceil>rat_of_int (totalCount pg) / rat_of_int l\<rceil>
     \<and> totalCount pg \<le> totalPages pg * l \<and> (totalPages pg - 1) * l < totalCount pg
     \<and> (totalCount pg = 0 \<longrightarrow> totalPages pg = 0)
     \<and> hasNext pg = (p < totalPages pg)
     \<and> hasPrev pg = (p > 1)"

text \<open>
  The filters as the specification words them: a supplied \<open>status\<close> and \<open>customer_id\<close> match
  exactly, supplied \<open>start_date\<close> and \<open>end_date\<close> bound \<open>order_date\<close> inclusively, and an order
  must meet all the supplied ones. A parameter is supplied when it is present and not empty.
\<close>

definition satisfies_filters :: "engine \<Rightarrow> query_string \<Rightarrow> order_row \<Rightarrow> bool" where
  "satisfies_filters eng q r \<longleftrightarrow>
     (string_or_empty (q ''status'') \<noteq> [] \<longrightarrow> o_status r = string_or_empty (q ''status''))
     \<and> (string_or_empty (q ''customer_id'') \<noteq> [] \<longrightarrow>
          int4_in eng (string_or_empty (q ''customer_id'')) = Some (o_customer_id r))
     \<and> (string_or_empty (q ''start_date'') \<noteq> [] \<longrightarrow>
          (case date_in eng (string_or_empty (q ''start_date'')) of
             None \<Rightarrow> False | Some d \<Rightarrow> d \<le> o_order_date r))
     \<and> (string_or_empty (q ''end_date'') \<noteq> [] \<longrightarrow>
          (case date_in eng (string_or_empty (q ''end_date'')) of
             None \<Rightarrow> False | Some d \<Rightarrow> o_order_date r \<le> d))"

text \<open>The supplied \<open>customer_id\<close>, \<open>start_date\<close> and \<open>end_date\<close> are values of their column types.\<close>

definition filters_valid :: "engine \<Rightarrow> query_string \<Rightarrow> bool" where
  "filters_valid eng q \<longleftrightarrow>
     (string_or_empty (q ''customer_id'') \<noteq> [] \<longrightarrow>
        int4_in eng (string_or_empty (q ''customer_id'')) \<noteq> None)
     \<and> (string_or_empty (q ''start_date'') \<noteq> [] \<longrightarrow>
        date_in eng (string_or_empty (q ''start_date'')) \<noteq> None)
     \<and> (string_or_empty (q ''end_date'') \<noteq> [] \<longrightarrow>
        date_in eng (string_or_empty (q ''end_date'')) \<noteq> None)"

text \<open>
  A text of ASCII characters: on such a text \<open>parseInt\<close> above is the \<open>parseInt\<close> of
  ECMAScript, which skips further white space characters beyond ASCII.
\<close>

definition ascii_text :: "string \<Rightarrow> bool" where
  "ascii_text s \<longleftrightarrow> list_all (\<lambda>c. (of_char c :: nat) < 128) s"

text \<open>A text without the characters that have a meaning in a pattern.\<close>

definition plain :: "string \<Rightarrow> bool" where
  "plain s \<longleftrightarrow> CHR ''%'' \<notin> set s \<and> CHR ''_'' \<notin> set s \<and> CHR 0x5C \<notin> set s"

text \<open>\<open>String.prototype.trim\<close>, on the ASCII white space characters.\<close>

definition trim :: "string \<Rightarrow> string" where
  "trim s = rev (dropWhile isStrWhiteSpaceChar (rev (dropWhile isStrWhiteSpaceChar s)))"

text \<open>
  The search predicate as the specification words it: the text is there and contains the
  search string as a substring, letters compared without regard to case.
\<close>

definition contains_ci :: "string option \<Rightarrow> string \<Rightarrow> bool" where
  "contains_ci str s \<longleftrightarrow>
     (case str of None \<Rightarrow> False | Some t \<Rightarrow> sublist (map to_lower s) (map to_lower t))"

text \<open>
  The trailing window of the specification: the \<open>days\<close> days up to the current date, the
  day \<open>days\<close> days ago included.
\<close>

definition in_trailing_window :: "date \<Rightarrow> int \<Rightarrow> date \<Rightarrow> bool" where
  "in_trailing_window today days d \<longleftrightarrow> today - days \<le> d \<and> d \<le> today"

text \<open>The orders of one calendar date.\<close>

definition orders_on :: "database \<Rightarrow> date \<Rightarrow> order_row list" where
  "orders_on db d = filter (\<lambda>r. o_order_date r = d) (orders db)"

text \<open>The completed orders of a customer, and the row the ranking has for the customer.\<close>

definition completed_orders_of :: "database \<Rightarrow> customer_row \<Rightarrow> order_row list" where
  "completed_orders_of db c =
     filter (\<lambda>r. o_status r = ''completed'') (filter (\<lambda>r. c_id c = o_customer_id r) (orders db))"

definition revenue_row :: "database \<Rightarrow> customer_row \<Rightarrow> revenue_by_customer_row" where
  "revenue_row db c =
     \<lparr> rc_name = c_name c,
       rc_total_revenue = sum_list (map o_total (completed_orders_of db c)),
       rc_order_count = int (length (completed_orders_of db c)) \<rparr>"

text \<open>
  The orders that reference a customer, and the row the specification asks for a customer:
  its columns, the number of its orders and the sum of their totals.
\<close>

definition orders_of :: "database \<Rightarrow> customer_row \<Rightarrow> order_row list" where
  "orders_of db c = filter (\<lambda>r. c_id c = o_customer_id r) (orders db)"

definition customer_with_aggregates :: "database \<Rightarrow> customer_row \<Rightarrow> customer_listing_row" where
  "customer_with_aggregates db c =
     \<lparr> customer_columns = c,
       order_count = int (length (orders_of db c)),
       total_spent = sum_list (map o_total (orders_of db c)) \<rparr>"

text \<open>The condition of the search clause on a customer; none without a search.\<close>

definition customer_qualifies :: "query_string \<Rightarrow> customer_row \<Rightarrow> bool" where
  "customer_qualifies q c \<longleftrightarrow>
     (let search = string_or_empty (q ''search'') in
      search = []
      \<or> ilike (c_name c) (''%'' @ search @ ''%'')
      \<or> ilike (c_email c) (''%'' @ search @ ''%''))"

section \<open>Sample data\<close>

text \<open>
  Two customers: A with two completed orders of 299.99 and 89.99, and B with one pending
  order of 149.50.
\<close>

definition sample_customer :: "int \<Rightarrow> string \<Rightarrow> string \<Rightarrow> timestamp \<Rightarrow> customer_row" where
  "sample_customer i n e t =
     \<lparr> c_id = i, c_name = Some n, c_email = Some e, c_phone = None, c_address = None,
       c_city = None, c_country = None, c_created_at = t, c_updated_at = t \<rparr>"

definition sample_order :: "int \<Rightarrow> int \<Rightarrow> date \<Rightarrow> rat \<Rightarrow> string \<Rightarrow> order_row" where
  "sample_order i c d a s =
     \<lparr> o_id = i, o_customer_id = c, o_order_date = d, o_total = a, o_status = s,
       o_shipping_address = None, o_payment_method = None, o_created_at = d, o_updated_at = d \<rparr>"

definition seed :: database where
  "seed =
     \<lparr> customers = [sample_customer 1 ''A'' ''a@example.com'' 1,
                    sample_customer 2 ''B'' ''b@example.com'' 2],
       orders = [sample_order 1 1 15 (29999 / 100) ''completed'',
                 sample_order 2 1 17 (8999 / 100) ''completed'',
                 sample_order 3 2 16 (299 / 2) ''pending''] \<rparr>"

text \<open>
  A sample engine: it reads an integer as \<open>parseInt\<close> does and a date as a day number, its
  current date is day 40, and it computes the lower end of a window of up to 100000 days.
\<close>

definition sample_engine :: engine where
  "sample_engine =
     \<lparr> int4_in = (\<lambda>s. parseInt (Some s)), date_in = (\<lambda>s. parseInt (Some s)),
       current_date = 40, accepts_days = (\<lambda>n. - 100000 \<le> n \<and> n \<le> 100000) \<rparr>"

text \<open>The responses to the sample requests of the theorems below.\<close>

definition sample_orders_body :: orders_body where
  "sample_orders_body =
     \<lparr> orders_rows =
         [\<lparr> order_columns = sample_order 3 2 16 (299 / 2) ''pending'',
            customer_name = Some ''B'', customer_email = Some ''b@example.com'' \<rparr>],
       orders_pagination =
         \<lparr> currentPage = 1, totalPages = 1, totalCount = 1, hasNext = False, hasPrev = False \<rparr> \<rparr>"

definition empty_orders_body :: orders_body where
  "empty_orders_body =
     \<lparr> orders_rows = [],
       orders_pagination =
         \<lparr> currentPage = 1, totalPages = 0, totalCount = 0, hasNext = False, hasPrev = False \<rparr> \<rparr>"

definition sample_customers_body :: customers_body where
  "sample_customers_body =
     \<lparr> customers_rows =
         [\<lparr> customer_columns = sample_customer 2 ''B'' ''b@example.com'' 2,
            order_count = 1, total_spent = 299 / 2 \<rparr>,
          \<lparr> customer_columns = sample_customer 1 ''A'' ''a@example.com'' 1,
            order_count = 2, total_spent = 38998 / 100 \<rparr>],
       customers_pagination =
         \<lparr> currentPage = 1, totalPages = 1, totalCount = 2, hasNext = False, hasPrev = False \<rparr> \<rparr>"

definition january_orders_body :: orders_body where
  "january_orders_body =
     \<lparr> orders_rows =
         [\<lparr> order_columns = sample_order 1 1 15 (29999 / 100) ''completed'',
            customer_name = Some ''A'', customer_email = Some ''a@example.com'' \<rparr>],
       orders_pagination =
         \<lparr> currentPage = 1, totalPages = 1, totalCount = 1, hasNext = False, hasPrev = False \<rparr> \<rparr>"

text \<open>A table with a single order, dated ten days after the sample engine's current date.\<close>

definition future_order_db :: database where
  "future_order_db =
     \<lparr> customers = [sample_customer 1 ''A'' ''a@example.com'' 1],
       orders = [sample_order 1 1 50 10 ''pending''] \<rparr>"

definition sample_orders_over_time :: "orders_over_time_row list" where
  "sample_orders_over_time =
     [\<lparr> ot_date = 15, ot_order_count = 1, ot_revenue = 29999 / 100 \<rparr>,
      \<lparr> ot_date = 16, ot_order_count = 1, ot_revenue = 299 / 2 \<rparr>,
      \<lparr> ot_date = 17, ot_order_count = 1, ot_revenue = 8999 / 100 \<rparr>]"

text \<open>Three customers whose completed orders add up to 500, 500 and 300.\<close>

definition tied_revenue_db :: database where
  "tied_revenue_db =
     \<lparr> customers = [sample_customer 1 ''X'' ''x@example.com'' 1,
                    sample_customer 2 ''Y'' ''y@example.com'' 2,
                    sample_customer 3 ''Z'' ''z@example.com'' 3],
       orders = [sample_order 1 1 15 500 ''completed'',
                 sample_order 2 2 16 200 ''completed'',
                 sample_order 3 2 17 300 ''completed'',
                 sample_order 4 3 18 300 ''completed'',
                 sample_order 5 3 19 900 ''pending''] \<rparr>"

text \<open>The sample customers, B without orders, and the first page of one row.\<close>

definition new_customer_db :: database where
  "new_customer_db =
     \<lparr> customers = [sample_customer 1 ''A'' ''a@example.com'' 1,
                    sample_customer 2 ''B'' ''b@example.com'' 2],
       orders = [sample_order 1 1 15 (29999 / 100) ''completed'',
                 sample_order 2 1 17 (8999 / 100) ''completed''] \<rparr>"

definition new_customer_body :: customers_body where
  "new_customer_body =
     \<lparr> customers_rows =
         [\<lparr> customer_columns = sample_customer 2 ''B'' ''b@example.com'' 2,
            order_count = 0, total_spent = 0 \<rparr>],
       customers_pagination =
         \<lparr> currentPage = 1, totalPages = 2, totalCount = 2, hasNext = True, hasPrev = False \<rparr> \<rparr>"

section \<open>Dashboard summary and derived metrics\<close>

lemma sum_list_filter_mset:
  "sum_list (map f (filter P xs)) = sum_mset (image_mset f (filter_mset P (mset xs)))"
  by (induction xs) simp_all

lemma length_filter_mset: "length (filter P xs) = size (filter_mset P (mset xs))"
  by (induction xs) simp_all

text \<open>
  C3: the dashboard summary gives the number of orders, the number of customers, the sum of
  \<open>total\<close> over the orders whose status is completed or shipped (0 when there is none), and
  the number of pending orders. For two customers, two completed orders that add up to
  389.98 and one pending order of 149.50, whatever the order of the rows in the table, it
  gives 3, 2, 389.98 and 1.
\<close>

theorem dashboard_summary:
  "totalOrders (dashboard db) = int (length (orders db))
   \<and> totalCustomers (dashboard db) = int (length (customers db))
   \<and> totalRevenue (dashboard db) =
       sum_list (map o_total
         (filter (\<lambda>r. o_status r = ''completed'' \<or> o_status r = ''shipped'') (orders db)))
   \<and> ((\<forall>r \<in> set (orders db). o_status r \<noteq> ''completed'' \<and> o_status r \<noteq> ''shipped'')
        \<longrightarrow> totalRevenue (dashboard db) = 0)
   \<and> pendingOrders (dashboard db) =
       int (length (filter (\<lambda>r. o_status r = ''pending'') (orders db)))
   \<and> (length (customers db) = 2 \<and> mset (orders db) = {#x, y, z#}
        \<and> o_status x = ''completed'' \<and> o_status y = ''completed''
        \<and> o_total x + o_total y = 38998 / 100
        \<and> o_status z = ''pending'' \<and> o_total z = 299 / 2
      \<longrightarrow> dashboard db =
            \<lparr> totalOrders = 3, totalCustomers = 2, totalRevenue = 38998 / 100,
              pendingOrders = 1 \<rparr>)"
proof -
  have rev: "totalRevenue (dashboard db) =
       sum_list (map o_total
         (filter (\<lambda>r. o_status r = ''completed'' \<or> o_status r = ''shipped'') (orders db)))"
    by (simp add: dashboard_def coalesce_def sql_sum_def)
  have none: "totalRevenue (dashboard db) = 0"
    if "\<forall>r \<in> set (orders db). o_status r \<noteq> ''completed'' \<and> o_status r \<noteq> ''shipped''"
  proof -
    have "filter (\<lambda>r. o_status r = ''completed'' \<or> o_status r = ''shipped'') (orders db) = []"
      using that by (simp add: filter_empty_conv)
    then show ?thesis unfolding rev by simp
  qed
  have seeded: "dashboard db =
            \<lparr> totalOrders = 3, totalCustomers = 2, totalRevenue = 38998 / 100,
              pendingOrders = 1 \<rparr>"
    if h: "length (customers db) = 2 \<and> mset (orders db) = {#x, y, z#}
        \<and> o_status x = ''completed'' \<and> o_status y = ''completed''
        \<and> o_total x + o_total y = 38998 / 100
        \<and> o_status z = ''pending'' \<and> o_total z = 299 / 2"
  proof -
    have m: "mset (orders db) = {#x, y, z#}" using h by simp
    have len: "length (orders db) = 3"
      using arg_cong [OF m, of size] by simp
    have r: "totalRevenue (dashboard db) = 38998 / 100"
      unfolding rev sum_list_filter_mset m using h by (simp add: add.commute)
    have p: "length (filter (\<lambda>r. o_status r = ''pending'') (orders db)) = 1"
      unfolding length_filter_mset m using h by simp
    show ?thesis
      using r p len h by (simp add: dashboard_def sql_count_def)
  qed
  show ?thesis
    using rev none seeded by (simp add: dashboard_def sql_count_def)
qed

text \<open>The sample data meets the scenario; without orders the revenue is 0.\<close>

theorem dashboard_summary_witness:
  "(\<exists>r \<in> set (orders seed). o_status r = ''completed'')
   \<and> length (customers seed) = 2
   \<and> dashboard seed =
       \<lparr> totalOrders = 3, totalCustomers = 2, totalRevenue = 38998 / 100, pendingOrders = 1 \<rparr>
   \<and> totalRevenue (dashboard \<lparr> customers = customers seed, orders = [] \<rparr>) = 0"
  using dashboard_summary [of seed "sample_order 1 1 15 (29999 / 100) ''completed''"
      "sample_order 2 1 17 (8999 / 100) ''completed''" "sample_order 3 2 16 (299 / 2) ''pending''"]
    dashboard_summary [of "\<lparr> customers = customers seed, orders = [] \<rparr>"]
  by (simp add: seed_def sample_order_def sample_customer_def)

text \<open>
  C10: on the metrics the dashboard endpoint returns, \<open>averageOrderValue\<close> is
  \<open>totalRevenue / max(totalOrders, 1)\<close> and \<open>completionRate\<close> is
  \<open>(totalOrders - pendingOrders) / max(totalOrders, 1) * 100\<close>, both finite numbers; without
  orders the divisor is 1 and \<open>averageOrderValue\<close> is 0.
\<close>

theorem derived_metrics:
  "averageOrderValue (dashboard db) =
     Some (totalRevenue (dashboard db) / of_int (max (totalOrders (dashboard db)) 1))
   \<and> completionRate (dashboard db) =
     Some (of_int (totalOrders (dashboard db) - pendingOrders (dashboard db))
           / of_int (max (totalOrders (dashboard db)) 1) * 100)
   \<and> (totalOrders (dashboard db) = 0 \<longrightarrow>
        number_or (Some (totalOrders (dashboard db))) 1 = 1
        \<and> averageOrderValue (dashboard db) = Some 0)"
proof -
  have n: "number_or (Some (totalOrders (dashboard db))) 1 = max (totalOrders (dashboard db)) 1"
    by (cases "orders db") (simp_all add: number_or_def dashboard_def sql_count_def max_def)
  have pos: "rat_of_int (max (totalOrders (dashboard db)) 1) \<noteq> 0" by (simp add: max_def)
  have z: "totalRevenue (dashboard db) = 0" if "totalOrders (dashboard db) = 0"
    using that by (simp add: dashboard_def sql_count_def coalesce_def sql_sum_def)
  have a: "averageOrderValue (dashboard db) =
     Some (totalRevenue (dashboard db) / of_int (max (totalOrders (dashboard db)) 1))"
    unfolding averageOrderValue_def n js_divide_def using pos by simp
  have c: "completionRate (dashboard db) =
     Some (of_int (totalOrders (dashboard db) - pendingOrders (dashboard db))
           / of_int (max (totalOrders (dashboard db)) 1) * 100)"
    unfolding completionRate_def n js_divide_def using pos by simp
  have e: "number_or (Some (totalOrders (dashboard db))) 1 = 1
        \<and> averageOrderValue (dashboard db) = Some 0" if t: "totalOrders (dashboard db) = 0"
    unfolding a n using z [OF t] t by simp
  show ?thesis
    using a c e by blast
qed

text \<open>The empty database has no orders, and its average order value is 0.\<close>

theorem derived_metrics_witness:
  "totalOrders (dashboard \<lparr> customers = [], orders = [] \<rparr>) = 0
   \<and> averageOrderValue (dashboard \<lparr> customers = [], orders = [] \<rparr>) = Some 0"
proof -
  have h: "totalOrders (dashboard \<lparr> customers = [], orders = [] \<rparr>) = 0"
    by (simp add: dashboard_def sql_count_def)
  show ?thesis
    using h derived_metrics [of "\<lparr> customers = [], orders = [] \<rparr>"] by blast
qed

section \<open>Listing routers: pagination and count\<close>

lemma and_then_Inr: "and_then x f = Inr y \<longleftrightarrow> (\<exists>v. x = Inr v \<and> f v = Inr y)"
  by (cases x) (simp_all add: and_then_def)

lemma and_then_Inr_simp [simp]: "and_then (Inr v) f = f v"
  by (simp add: and_then_def)

lemma and_then_Inl_simp [simp]: "and_then (Inl e) f = Inl e"
  by (simp add: and_then_def)

lemma add_filter_ok:
  assumes "builder_ok b" and "\<And>n. placeholder_of (clause n) = n"
  shows "builder_ok (add_filter clause v b)"
  using assms by (cases b) (auto simp: builder_ok_def add_filter_def)

lemma orders_filters_ok: "builder_ok (orders_filters q)"
proof -
  have b0: "builder_ok ([], [], [], 1)" by (simp add: builder_ok_def)
  have step: "builder_ok (if c then add_filter clause v b else b)"
    if "builder_ok b" and "\<And>n. placeholder_of (clause n) = n" for c clause v b
    using that by (simp add: add_filter_ok)
  show ?thesis
    unfolding orders_filters_def Let_def
    by (intro step b0) simp_all
qed

lemma placeholder_append:
  "1 \<le> n \<Longrightarrow> n \<le> length vs \<Longrightarrow> placeholder (vs @ ws) n = placeholder vs n"
  by (auto simp: placeholder_def nth_append)

lemma bind_predicate_append:
  "1 \<le> placeholder_of c \<Longrightarrow> placeholder_of c \<le> length vs \<Longrightarrow>
   bind_predicate eng (vs @ ws) c = bind_predicate eng vs c"
  by (cases c) (simp_all add: placeholder_append)

lemma bind_predicates_append:
  "\<forall>c \<in> set cs. 1 \<le> placeholder_of c \<and> placeholder_of c \<le> length vs \<Longrightarrow>
   bind_predicates eng (vs @ ws) cs = bind_predicates eng vs cs"
  by (induction cs) (simp_all add: bind_predicate_append)

lemma builder_ok_range:
  assumes "builder_ok (query, countQuery, queryParams, paramIndex)" and "c \<in> set query"
  shows "1 \<le> placeholder_of c \<and> placeholder_of c \<le> length queryParams"
proof -
  have "placeholder_of c \<in> set (map placeholder_of query)" using assms(2) by simp
  also have "map placeholder_of query = [1..<length queryParams + 1]"
    using assms(1) by (simp add: builder_ok_def)
  finally show ?thesis by auto
qed

lemma orders_where_append:
  assumes "builder_ok (query, countQuery, queryParams, paramIndex)"
  shows "orders_where eng db query (queryParams @ ws) = orders_where eng db query queryParams"
  unfolding orders_where_def
  using bind_predicates_append [of query queryParams eng ws] builder_ok_range [OF assms]
  by simp

lemma orders_get_Json:
  assumes "orders_get scan eng db q = Json body"
      and "orders_filters q = (query, countQuery, queryParams, paramIndex)"
      and "p = number_or (parseInt (q ''page'')) 1"
      and "l = number_or (parseInt (q ''limit'')) 10"
  shows "\<exists>rows cnt. orders_query scan eng db query paramIndex (paramIndex + 1)
           (queryParams @ [JNumber l, JNumber ((p - 1) * l)]) = Inr rows
         \<and> orders_count_query eng db countQuery queryParams = Inr cnt
         \<and> body = \<lparr> orders_rows = rows, orders_pagination = paginate p l cnt \<rparr>"
  using assms(1) unfolding orders_get_def Let_def assms(2) assms(3)[symmetric] assms(4)[symmetric]
  by (auto split: sum.splits)

lemma Math_ceil_div: "Math_ceil (of_int a / of_int b) = - ((- a) div b)"
  unfolding Math_ceil_def by (simp add: ceiling_divide_eq_div)

lemma paginate_as_specified:
  assumes "1 \<le> l"
  shows "envelope_as_specified p l (paginate p l n)"
proof -
  define t where "t = - ((- n) div l)"
  have c: "\<lceil>rat_of_int n / rat_of_int l\<rceil> = t"
    unfolding t_def by (simp add: ceiling_divide_eq_div)
  have d: "(- n) div l * l = - n - (- n) mod l"
    by (rule minus_mod_eq_div_mult [symmetric])
  have r: "0 \<le> (- n) mod l" "(- n) mod l < l" using assms by simp_all
  have "t * l = - ((- n) div l * l)" unfolding t_def by simp
  also have "\<dots> = n + (- n) mod l" unfolding d by simp
  finally have tl: "t * l = n + (- n) mod l" .
  have up: "n \<le> t * l" using tl r by simp
  have lo: "(t - 1) * l < n" using tl r by (simp add: algebra_simps)
  have z: "t = 0" if "n = 0" using that by (simp add: t_def)
  show ?thesis
    using up lo z
    by (simp add: envelope_as_specified_def paginate_def Math_ceil_def Let_def c)
qed

lemma customers_get_Json:
  assumes "customers_get scan eng db q = Json body"
      and "customers_filters q = (query, countQuery, queryParams, countParams)"
      and "p = number_or (parseInt (q ''page'')) 1"
      and "l = number_or (parseInt (q ''limit'')) 10"
  shows "\<exists>rows cnt. customers_query scan eng db query (length queryParams + 1)
           (length queryParams + 2)
           (queryParams @ [JNumber l, JNumber ((p - 1) * l)]) = Inr rows
         \<and> customers_count_query db countQuery countParams = Inr cnt
         \<and> body = \<lparr> customers_rows = rows, customers_pagination = paginate p l cnt \<rparr>"
  using assms(1)
  unfolding customers_get_def Let_def assms(2) assms(3)[symmetric] assms(4)[symmetric]
  by (auto split: sum.splits)

lemma orders_get_pagination:
  assumes "orders_get scan eng db q = Json body"
      and "p = number_or (parseInt (q ''page'')) 1"
      and "l = number_or (parseInt (q ''limit'')) 10"
  shows "\<exists>cnt. orders_count_query eng db (fst (snd (orders_filters q)))
             (fst (snd (snd (orders_filters q)))) = Inr cnt
           \<and> orders_pagination body = paginate p l cnt"
proof -
  obtain query countQuery queryParams paramIndex
    where f: "orders_filters q = (query, countQuery, queryParams, paramIndex)"
    by (cases "orders_filters q") auto
  from orders_get_Json [OF assms(1) f assms(2) assms(3)] show ?thesis
    unfolding f by auto
qed

lemma customers_get_pagination:
  assumes "customers_get scan eng db q = Json body"
      and "p = number_or (parseInt (q ''page'')) 1"
      and "l = number_or (parseInt (q ''limit'')) 10"
  shows "\<exists>cnt. customers_count_query db (fst (snd (customers_filters q)))
             (snd (snd (snd (customers_filters q)))) = Inr cnt
           \<and> customers_pagination body = paginate p l cnt"
proof -
  obtain query countQuery queryParams countParams
    where f: "customers_filters q = (query, countQuery, queryParams, countParams)"
    by (cases "customers_filters q") auto
  from customers_get_Json [OF assms(1) f assms(2) assms(3)] show ?thesis
    unfolding f by auto
qed

lemma totalCount_paginate: "totalCount (paginate p l n) = n"
  by (simp add: paginate_def Let_def)

text \<open>
  C1: for a listing response (orders or customers) whose parsed page \<open>p\<close> and limit \<open>l\<close> are
  at least 1, \<open>totalPages\<close> is the ceiling of \<open>totalCount / l\<close> (0 for no rows), \<open>hasNext\<close> is
  \<open>p < totalPages\<close> and \<open>hasPrev\<close> is \<open>p > 1\<close>; the envelope is a function of \<open>p\<close>, \<open>l\<close> and
  \<open>totalCount\<close> alone, and another call with the same parameters on the same data returns
  the same envelope, whatever order the engine delivers the rows in.
\<close>

theorem pagination_envelope:
  assumes "p = number_or (parseInt (q ''page'')) 1"
      and "l = number_or (parseInt (q ''limit'')) 10"
      and "1 \<le> p" and "1 \<le> l"
  shows "(orders_get scan eng db q = Json body \<longrightarrow>
            envelope_as_specified p l (orders_pagination body)
            \<and> orders_pagination body = paginate p l (totalCount (orders_pagination body))
            \<and> (\<forall>scan' body'. orders_get scan' eng db q = Json body' \<longrightarrow>
                  orders_pagination body' = orders_pagination body))
       \<and> (customers_get cscan eng db q = Json cbody \<longrightarrow>
            envelope_as_specified p l (customers_pagination cbody)
            \<and> customers_pagination cbody
                = paginate p l (totalCount (customers_pagination cbody))
            \<and> (\<forall>scan' body'. customers_get scan' eng db q = Json body' \<longrightarrow>
                  customers_pagination body' = customers_pagination cbody))"
proof (intro conjI impI allI)
  assume a: "orders_get scan eng db q = Json body"
  from orders_get_pagination [OF a assms(1) assms(2)] obtain cnt
    where c: "orders_count_query eng db (fst (snd (orders_filters q)))
             (fst (snd (snd (orders_filters q)))) = Inr cnt"
      and e: "orders_pagination body = paginate p l cnt" by blast
  show "envelope_as_specified p l (orders_pagination body)"
    unfolding e by (rule paginate_as_specified [OF assms(4)])
  show "orders_pagination body = paginate p l (totalCount (orders_pagination body))"
    unfolding e totalCount_paginate ..
  fix scan' body'
  assume b: "orders_get scan' eng db q = Json body'"
  from orders_get_pagination [OF b assms(1) assms(2)] c
  show "orders_pagination body' = orders_pagination body"
    unfolding e by auto
next
  assume a: "customers_get cscan eng db q = Json cbody"
  from customers_get_pagination [OF a assms(1) assms(2)] obtain cnt
    where c: "customers_count_query db (fst (snd (customers_filters q)))
             (snd (snd (snd (customers_filters q)))) = Inr cnt"
      and e: "customers_pagination cbody = paginate p l cnt" by blast
  show "envelope_as_specified p l (customers_pagination cbody)"
    unfolding e by (rule paginate_as_specified [OF assms(4)])
  show "customers_pagination cbody = paginate p l (totalCount (customers_pagination cbody))"
    unfolding e totalCount_paginate ..
  fix scan' body'
  assume b: "customers_get scan' eng db q = Json body'"
  from customers_get_pagination [OF b assms(1) assms(2)] c
  show "customers_pagination body' = customers_pagination cbody"
    unfolding e by auto
qed

text \<open>
  The sample data: no order is cancelled, so the count is 0 and so is the number of pages;
  the customer listing has two rows on one page.
\<close>

theorem pagination_envelope_witness:
  "number_or (parseInt ([''status'' \<mapsto> ''cancelled''] ''page'')) 1 = 1
   \<and> number_or (parseInt ([''status'' \<mapsto> ''cancelled''] ''limit'')) 10 = 10
   \<and> orders_get (\<lambda>xs. xs) sample_engine seed [''status'' \<mapsto> ''cancelled''] = Json empty_orders_body
   \<and> totalCount (orders_pagination empty_orders_body) = 0
   \<and> envelope_as_specified 1 10 (orders_pagination empty_orders_body)
   \<and> customers_get (\<lambda>xs. xs) sample_engine seed [''status'' \<mapsto> ''cancelled'']
       = Json sample_customers_body
   \<and> envelope_as_specified 1 10 (customers_pagination sample_customers_body)"
proof -
  let ?q = "[''status'' \<mapsto> ''cancelled'']"
  have p: "number_or (parseInt (?q ''page'')) 1 = 1" by (simp add: parseInt_def number_or_def)
  have l: "number_or (parseInt (?q ''limit'')) 10 = 10" by (simp add: parseInt_def number_or_def)
  have o: "orders_get (\<lambda>xs. xs) sample_engine seed ?q = Json empty_orders_body" by code_simp
  have c: "customers_get (\<lambda>xs. xs) sample_engine seed ?q = Json sample_customers_body"
    by code_simp
  have z: "totalCount (orders_pagination empty_orders_body) = 0"
    by (simp add: empty_orders_body_def)
  have t: "(1::int) \<le> 10" by simp
  show ?thesis
    using pagination_envelope [OF p [symmetric] l [symmetric] order_refl t,
        of "\<lambda>xs. xs" sample_engine seed empty_orders_body "\<lambda>xs. xs" sample_customers_body]
      p l o c z
    by blast
qed

lemma length_order_by_desc: "length (order_by_desc key rows) = length rows"
  by (simp add: order_by_desc_def)

lemma orders_count_unpaginated:
  assumes scan: "\<And>xs. mset (scan xs) = mset xs"
  shows "orders_count_query eng db clauses vs
     = map_sum (\<lambda>e. e) (\<lambda>rows. int (length rows))
         (orders_query_unpaginated scan eng db clauses vs)"
proof (cases "orders_where eng db clauses vs")
  case (Inl e)
  then show ?thesis by (simp add: orders_count_query_def orders_query_unpaginated_def)
next
  case (Inr rows)
  have "length (scan rows) = length rows" using scan [of rows] by (rule mset_eq_length)
  then show ?thesis
    using Inr
    by (simp add: orders_count_query_def orders_query_unpaginated_def sql_count_def
        length_order_by_desc)
qed

lemma orders_query_unpaginated_append:
  assumes "builder_ok (query, countQuery, queryParams, paramIndex)"
  shows "orders_query_unpaginated scan eng db query (queryParams @ ws)
       = orders_query_unpaginated scan eng db query queryParams"
  unfolding orders_query_unpaginated_def orders_where_append [OF assms] ..

text \<open>
  C2: in the order listing the count query carries the same filter clauses as the row query,
  every clause reads the same value from the count query's parameters (the row query's
  without the last two) as from the row query's, and the two statements differ by
  \<open>ORDER BY\<close>, \<open>LIMIT\<close> and \<open>OFFSET\<close> only; the count query fails exactly when the
  row query without \<open>LIMIT\<close> and \<open>OFFSET\<close> fails, and otherwise returns its number of
  rows, which is the \<open>totalCount\<close> of the response. The engine may deliver the rows in any
  order.
\<close>

theorem count_query_matches_row_query:
  assumes scan: "\<And>xs. mset (scan xs) = mset xs"
      and f: "orders_filters q = (query, countQuery, queryParams, paramIndex)"
      and rp: "rowParams = queryParams @ [JNumber l, JNumber k]"
      and cp: "countParams = take (length rowParams - 2) rowParams"
  shows "countQuery = query
     \<and> (\<forall>c \<in> set query. \<exists>v. placeholder rowParams (placeholder_of c) = Inr v
           \<and> placeholder countParams (placeholder_of c) = Inr v)
     \<and> orders_count_query eng db countQuery countParams
         = map_sum (\<lambda>e. e) (\<lambda>rows. int (length rows))
             (orders_query_unpaginated scan eng db query rowParams)
     \<and> (l = number_or (parseInt (q ''limit'')) 10
         \<and> k = (number_or (parseInt (q ''page'')) 1 - 1) * l
         \<and> orders_get scan eng db q = Json body \<longrightarrow>
           (\<exists>rows. orders_query_unpaginated scan eng db query rowParams = Inr rows
              \<and> totalCount (orders_pagination body) = int (length rows)))"
proof -
  have ok: "builder_ok (query, countQuery, queryParams, paramIndex)"
    using orders_filters_ok [of q] unfolding f .
  have cq: "countQuery = query" using ok by (simp add: builder_ok_def)
  have cp': "countParams = queryParams" unfolding cp rp by simp
  have ph: "\<exists>v. placeholder rowParams (placeholder_of c) = Inr v
           \<and> placeholder countParams (placeholder_of c) = Inr v" if "c \<in> set query" for c
  proof -
    from builder_ok_range [OF ok that]
    have r: "1 \<le> placeholder_of c" "placeholder_of c \<le> length queryParams" by simp_all
    have "placeholder rowParams (placeholder_of c) = placeholder queryParams (placeholder_of c)"
      unfolding rp by (rule placeholder_append [OF r])
    moreover have "placeholder queryParams (placeholder_of c)
        = Inr (queryParams ! (placeholder_of c - 1))"
      using r by (simp add: placeholder_def)
    ultimately show ?thesis unfolding cp' by simp
  qed
  have sem: "orders_count_query eng db countQuery countParams
         = map_sum (\<lambda>e. e) (\<lambda>rows. int (length rows))
             (orders_query_unpaginated scan eng db query rowParams)"
    unfolding cq cp' rp orders_query_unpaginated_append [OF ok]
    by (rule orders_count_unpaginated [OF scan])
  have tot: "\<exists>rows. orders_query_unpaginated scan eng db query rowParams = Inr rows
              \<and> totalCount (orders_pagination body) = int (length rows)"
    if h: "l = number_or (parseInt (q ''limit'')) 10
         \<and> k = (number_or (parseInt (q ''page'')) 1 - 1) * l
         \<and> orders_get scan eng db q = Json body"
  proof -
    from h have g: "orders_get scan eng db q = Json body" by simp
    from orders_get_Json [OF g f refl refl] obtain cnt
      where c: "orders_count_query eng db countQuery queryParams = Inr cnt"
        and b: "orders_pagination body
                 = paginate (number_or (parseInt (q ''page'')) 1)
                     (number_or (parseInt (q ''limit'')) 10) cnt"
      by auto
    have t: "totalCount (orders_pagination body) = cnt" unfolding b totalCount_paginate ..
    from sem c have "map_sum (\<lambda>e. e) (\<lambda>rows. int (length rows))
             (orders_query_unpaginated scan eng db query rowParams) = Inr cnt"
      unfolding cp' by simp
    then show ?thesis unfolding t
      by (cases "orders_query_unpaginated scan eng db query rowParams") auto
  qed
  show ?thesis using cq ph sem tot by blast
qed

text \<open>The sample data, filtered on the status pending: one row, counted once.\<close>

theorem count_query_matches_row_query_witness:
  "orders_filters [''status'' \<mapsto> ''pending'']
     = ([status_eq 1], [status_eq 1], [JString ''pending''], 2)
   \<and> orders_get (\<lambda>xs. xs) sample_engine seed [''status'' \<mapsto> ''pending'']
       = Json sample_orders_body
   \<and> (\<exists>rows. orders_query_unpaginated (\<lambda>xs. xs) sample_engine seed [status_eq 1]
                [JString ''pending'', JNumber 10, JNumber 0] = Inr rows
          \<and> totalCount (orders_pagination sample_orders_body) = int (length rows))"
proof -
  let ?q = "[''status'' \<mapsto> ''pending'']"
  have f: "orders_filters ?q = ([status_eq 1], [status_eq 1], [JString ''pending''], 2)"
    by code_simp
  have g: "orders_get (\<lambda>xs. xs) sample_engine seed ?q = Json sample_orders_body"
    by code_simp
  have l: "10 = number_or (parseInt (?q ''limit'')) 10" by code_simp
  have k: "0 = (number_or (parseInt (?q ''page'')) 1 - 1) * 10" by code_simp
  have rp: "[JString ''pending'', JNumber 10, JNumber 0]
      = [JString ''pending''] @ [JNumber 10, JNumber 0]" by simp
  have s: "mset ((\<lambda>xs. xs) xs) = mset xs" for xs :: "(order_row \<times> customer_row) list"
    by simp
  show ?thesis
    using count_query_matches_row_query [of "\<lambda>xs. xs", OF s f rp refl,
        of sample_engine seed sample_orders_body] f g l k
    by blast
qed

section \<open>Order listing: filters\<close>

lemma orders_where_filters:
  assumes "orders_filters q = (query, countQuery, vs, n)"
  shows "orders_where eng db query vs
     = (if filters_valid eng q
        then Inr (filter (\<lambda>j. satisfies_filters eng q (fst j)) (orders_from db))
        else Inl invalid_text_representation)"
  using assms
  unfolding orders_filters_def Let_def add_filter_def orders_where_def
  by (auto simp: filters_valid_def satisfies_filters_def placeholder_def to_integer_def
      to_date_def to_text_def nth_append split: if_splits option.splits intro!: filter_cong)

lemma orders_get_char:
  assumes p: "p = number_or (parseInt (q ''page'')) 1"
      and l: "l = number_or (parseInt (q ''limit'')) 10"
  shows "orders_get scan eng db q
     = (if filters_valid eng q \<and> 0 \<le> (p - 1) * l \<and> (p - 1) * l < 2 ^ 63
            \<and> 0 \<le> l \<and> l < 2 ^ 63
        then Json
          \<lparr> orders_rows = take (nat l) (drop (nat ((p - 1) * l))
              (map orders_select (order_by_desc (\<lambda>j. o_created_at (fst j))
                (scan (filter (\<lambda>j. satisfies_filters eng q (fst j)) (orders_from db)))))),
            orders_pagination = paginate p l
              (int (length (filter (\<lambda>j. satisfies_filters eng q (fst j)) (orders_from db)))) \<rparr>
        else Status500 ''Failed to fetch orders'')"
proof -
  obtain query countQuery vs n
    where f: "orders_filters q = (query, countQuery, vs, n)"
    by (cases "orders_filters q") auto
  have ok: "builder_ok (query, countQuery, vs, n)"
    using orders_filters_ok [of q] unfolding f .
  have cq: "countQuery = query" and n: "n = length vs + 1"
    using ok by (simp_all add: builder_ok_def)
  note w = orders_where_filters [OF f, of eng db]
  have w2: "orders_where eng db query (vs @ ws) = orders_where eng db query vs" for ws
    by (rule orders_where_append [OF ok])
  have pl: "placeholder (vs @ [JNumber a, JNumber b]) (Suc (length vs)) = Inr (JNumber a)" for a b
    by (simp add: placeholder_def nth_append)
  have pk: "placeholder (vs @ [JNumber a, JNumber b]) (Suc (Suc (length vs))) = Inr (JNumber b)"
    for a b
    by (simp add: placeholder_def nth_append)
  show ?thesis
    unfolding orders_get_def Let_def f p [symmetric] l [symmetric] cq n
    by (simp add: orders_query_def orders_query_unpaginated_def orders_count_query_def
        w2 w pl pk to_integer_def limit_offset_def sql_count_def)
qed

lemma length_filter_mono:
  "(\<And>x. x \<in> set xs \<Longrightarrow> P x \<Longrightarrow> Q x) \<Longrightarrow> length (filter P xs) \<le> length (filter Q xs)"
  by (induction xs) auto

lemma remove_filter_valid:
  assumes "filters_valid eng q"
      and "key \<in> {''status'', ''customer_id'', ''start_date'', ''end_date''}"
  shows "filters_valid eng (q(key := None))"
  using assms by (auto simp: filters_valid_def string_or_empty_def)

lemma remove_filter_satisfies:
  assumes "satisfies_filters eng q r"
      and "key \<in> {''status'', ''customer_id'', ''start_date'', ''end_date''}"
  shows "satisfies_filters eng (q(key := None)) r"
  using assms by (auto simp: satisfies_filters_def string_or_empty_def)

lemma set_order_by_desc: "set (order_by_desc key rows) = set rows"
  by (simp add: order_by_desc_def)

text \<open>
  C5: in a response of the order listing every returned order meets all the supplied
  filters at once (status and customer id by equality, the dates as inclusive bounds on
  \<open>order_date\<close>), \<open>totalCount\<close> is the number of orders with a customer that meet them, and the
  same request without one of its filters succeeds as well, with a \<open>totalCount\<close> that is
  not smaller.
\<close>

theorem filters_conjunction_monotone:
  assumes scan: "\<And>xs. mset (scan xs) = mset xs"
      and scan': "\<And>xs. mset (scan' xs) = mset xs"
      and g: "orders_get scan eng db q = Json body"
  shows "(\<forall>row \<in> set (orders_rows body). satisfies_filters eng q (order_columns row))
     \<and> totalCount (orders_pagination body)
         = int (length (filter (\<lambda>j. satisfies_filters eng q (fst j)) (orders_from db)))
     \<and> (\<forall>key \<in> {''status'', ''customer_id'', ''start_date'', ''end_date''}.
          \<exists>body'. orders_get scan' eng db (q(key := None)) = Json body'
            \<and> totalCount (orders_pagination body) \<le> totalCount (orders_pagination body'))"
proof -
  define p where "p = number_or (parseInt (q ''page'')) 1"
  define l where "l = number_or (parseInt (q ''limit'')) 10"
  let ?sat = "\<lambda>q j. satisfies_filters eng q (fst j)"
  note c = orders_get_char [OF p_def l_def, of scan eng db]
  have v: "filters_valid eng q \<and> 0 \<le> (p - 1) * l \<and> (p - 1) * l < 2 ^ 63
      \<and> 0 \<le> l \<and> l < 2 ^ 63"
    using g unfolding c by (simp split: if_splits)
  have b: "body = \<lparr> orders_rows = take (nat l) (drop (nat ((p - 1) * l))
              (map orders_select (order_by_desc (\<lambda>j. o_created_at (fst j))
                (scan (filter (?sat q) (orders_from db)))))),
            orders_pagination = paginate p l (int (length (filter (?sat q) (orders_from db)))) \<rparr>"
    using g v unfolding c by simp
  have rows: "satisfies_filters eng q (order_columns row)" if "row \<in> set (orders_rows body)"
    for row
  proof -
    from that have "row \<in> set (map orders_select (order_by_desc (\<lambda>j. o_created_at (fst j))
                (scan (filter (?sat q) (orders_from db)))))"
      unfolding b using in_set_takeD in_set_dropD by fastforce
    then obtain j where j: "j \<in> set (scan (filter (?sat q) (orders_from db)))"
      and r: "row = orders_select j"
      by (auto simp: set_order_by_desc)
    from j have "j \<in> set (filter (?sat q) (orders_from db))"
      using mset_eq_setD [OF scan] by blast
    then show ?thesis unfolding r by (simp add: orders_select_def)
  qed
  have tc: "totalCount (orders_pagination body)
         = int (length (filter (?sat q) (orders_from db)))"
    unfolding b by (simp add: totalCount_paginate)
  have mono: "\<exists>body'. orders_get scan' eng db (q(key := None)) = Json body'
            \<and> totalCount (orders_pagination body) \<le> totalCount (orders_pagination body')"
    if k: "key \<in> {''status'', ''customer_id'', ''start_date'', ''end_date''}" for key
  proof -
    let ?q' = "q(key := None)"
    have p': "p = number_or (parseInt (?q' ''page'')) 1"
      and l': "l = number_or (parseInt (?q' ''limit'')) 10"
      using k unfolding p_def l_def by auto
    have v': "filters_valid eng ?q' \<and> 0 \<le> (p - 1) * l \<and> (p - 1) * l < 2 ^ 63
        \<and> 0 \<le> l \<and> l < 2 ^ 63"
      using v remove_filter_valid [OF _ k] by blast
    have le: "length (filter (?sat q) (orders_from db))
        \<le> length (filter (?sat ?q') (orders_from db))"
      by (rule length_filter_mono) (rule remove_filter_satisfies [OF _ k])
    show ?thesis
      unfolding orders_get_char [OF p' l', of scan' eng db] tc
      using v' le by (simp add: totalCount_paginate)
  qed
  show ?thesis using rows tc mono by blast
qed

text \<open>
  The sample data with the filters completed, from day 10, to day 16: one order is returned;
  without the end date there are two.
\<close>

theorem filters_conjunction_monotone_witness:
  "orders_get (\<lambda>xs. xs) sample_engine seed
       [''status'' \<mapsto> ''completed'', ''start_date'' \<mapsto> ''10'', ''end_date'' \<mapsto> ''16'']
     = Json january_orders_body
   \<and> satisfies_filters sample_engine
       [''status'' \<mapsto> ''completed'', ''start_date'' \<mapsto> ''10'', ''end_date'' \<mapsto> ''16'']
       (sample_order 1 1 15 (29999 / 100) ''completed'')
   \<and> (\<exists>body'. orders_get (\<lambda>xs. xs) sample_engine seed
         ([''status'' \<mapsto> ''completed'', ''start_date'' \<mapsto> ''10'', ''end_date'' \<mapsto> ''16'']
          (''end_date'' := None)) = Json body'
         \<and> 1 \<le> totalCount (orders_pagination body'))"
proof -
  let ?q = "[''status'' \<mapsto> ''completed'', ''start_date'' \<mapsto> ''10'', ''end_date'' \<mapsto> ''16'']"
  have g: "orders_get (\<lambda>xs. xs) sample_engine seed ?q = Json january_orders_body"
    by code_simp
  have s: "mset ((\<lambda>xs. xs) xs) = mset xs" for xs :: "(order_row \<times> customer_row) list"
    by simp
  have r: "\<lparr> order_columns = sample_order 1 1 15 (29999 / 100) ''completed'',
            customer_name = Some ''A'', customer_email = Some ''a@example.com'' \<rparr>
      \<in> set (orders_rows january_orders_body)"
    by (simp add: january_orders_body_def)
  have t: "totalCount (orders_pagination january_orders_body) = 1"
    by (simp add: january_orders_body_def)
  have k: "''end_date'' \<in> {''status'', ''customer_id'', ''start_date'', ''end_date''}" by simp
  note T = filters_conjunction_monotone [of "\<lambda>xs. xs" "\<lambda>xs. xs", OF s s g]
  from T r have a: "satisfies_filters sample_engine ?q
       (order_columns \<lparr> order_columns = sample_order 1 1 15 (29999 / 100) ''completed'',
            customer_name = Some ''A'', customer_email = Some ''a@example.com'' \<rparr>)"
    by blast
  from T k have b: "\<exists>body'. orders_get (\<lambda>xs. xs) sample_engine seed (?q(''end_date'' := None))
        = Json body'
      \<and> totalCount (orders_pagination january_orders_body) \<le> totalCount (orders_pagination body')"
    by blast
  show ?thesis using g a b unfolding t by simp
qed

lemma orders_from_customer:
  "j \<in> set (orders_from db) \<Longrightarrow> o_customer_id (fst j) \<in> c_id ` set (customers db)"
  by (auto simp: orders_from_def)

lemma scan_Nil: "(\<And>xs. mset (scan xs) = mset xs) \<Longrightarrow> scan [] = []"
  by (metis mset_zero_iff)

text \<open>
  C9, as the code has it: a request of the order listing whose \<open>customer_id\<close> is an integer
  that is no customer's id, whose page and limit are ASCII texts (or absent) and at least 1
  once parsed and defaulted, whose limit and offset \<open>(page - 1) * limit\<close> are at most
  \<open>Number.MAX_SAFE_INTEGER\<close> (so that they are exact JavaScript numbers, and in the range of
  \<open>bigint\<close>), whose date filters, if any, are dates, and whose status filter, if any, has no
  NUL character, is answered without error, with no rows, \<open>totalCount\<close> 0, \<open>totalPages\<close> 0
  and \<open>hasNext\<close> false.
\<close>

theorem unknown_customer_empty_page:
  assumes scan: "\<And>xs. mset (scan xs) = mset xs"
      and cid: "string_or_empty (q ''customer_id'') \<noteq> []"
      and k: "int4_in eng (string_or_empty (q ''customer_id'')) = Some k"
      and unknown: "k \<notin> c_id ` set (customers db)"
      and valid: "filters_valid eng q"
      and status: "CHR 0x00 \<notin> set (string_or_empty (q ''status''))"
      and page_ascii: "ascii_text (string_or_empty (q ''page''))"
      and limit_ascii: "ascii_text (string_or_empty (q ''limit''))"
      and page: "1 \<le> number_or (parseInt (q ''page'')) 1"
      and limit: "1 \<le> number_or (parseInt (q ''limit'')) 10"
      and limit_safe: "number_or (parseInt (q ''limit'')) 10 \<le> MAX_SAFE_INTEGER"
      and offset_safe:
        "(number_or (parseInt (q ''page'')) 1 - 1) * number_or (parseInt (q ''limit'')) 10
           \<le> MAX_SAFE_INTEGER"
  shows "\<exists>body. orders_get scan eng db q = Json body
     \<and> orders_rows body = []
     \<and> totalCount (orders_pagination body) = 0
     \<and> totalPages (orders_pagination body) = 0
     \<and> hasNext (orders_pagination body) = False"
proof -
  define p where "p = number_or (parseInt (q ''page'')) 1"
  define l where "l = number_or (parseInt (q ''limit'')) 10"
  have pl: "1 \<le> p" "1 \<le> l" using page limit unfolding p_def l_def by simp_all
  have off: "0 \<le> (p - 1) * l" using pl by simp
  have safe: "l \<le> 2 ^ 53 - 1" "(p - 1) * l \<le> 2 ^ 53 - 1"
    using limit_safe offset_safe unfolding p_def l_def MAX_SAFE_INTEGER_def by simp_all
  have big: "l < 2 ^ 63" "(p - 1) * l < 2 ^ 63"
    using safe by simp_all
  have none: "filter (\<lambda>j. satisfies_filters eng q (fst j)) (orders_from db) = []"
  proof -
    have "\<not> satisfies_filters eng q (fst j)" if "j \<in> set (orders_from db)" for j
      using orders_from_customer [OF that] cid k unknown
      by (auto simp: satisfies_filters_def)
    then show ?thesis by (simp add: filter_empty_conv)
  qed
  have e: "envelope_as_specified p l (paginate p l 0)"
    by (rule paginate_as_specified [OF pl(2)])
  have t0: "totalPages (paginate p l 0) = 0"
    using e by (simp add: envelope_as_specified_def totalCount_paginate)
  have h: "hasNext (paginate p l 0) = False"
    using e pl(1) unfolding envelope_as_specified_def t0 by simp
  have c: "filters_valid eng q \<and> 0 \<le> (p - 1) * l \<and> (p - 1) * l < 2 ^ 63
      \<and> 0 \<le> l \<and> l < 2 ^ 63"
    using valid off big pl by simp
  show ?thesis
    unfolding orders_get_char [OF p_def l_def, of scan eng db] none
    using c t0 h
    by (simp add: scan_Nil [OF scan] order_by_desc_def totalCount_paginate)
qed

text \<open>
  The sample data has no customer 999; the request for the second page of five of its
  pending orders gets an empty page.
\<close>

theorem unknown_customer_empty_page_witness:
  "\<exists>body. orders_get (\<lambda>xs. xs) sample_engine seed
       [''customer_id'' \<mapsto> ''999'', ''status'' \<mapsto> ''pending'', ''page'' \<mapsto> ''2'',
        ''limit'' \<mapsto> ''5''] = Json body
     \<and> orders_rows body = []
     \<and> totalCount (orders_pagination body) = 0
     \<and> totalPages (orders_pagination body) = 0
     \<and> hasNext (orders_pagination body) = False"
proof -
  let ?q = "[''customer_id'' \<mapsto> ''999'', ''status'' \<mapsto> ''pending'', ''page'' \<mapsto> ''2'',
        ''limit'' \<mapsto> ''5'']"
  have s: "mset ((\<lambda>xs. xs) xs) = mset xs" for xs :: "(order_row \<times> customer_row) list"
    by simp
  have cid: "string_or_empty (?q ''customer_id'') \<noteq> []" by (simp add: string_or_empty_def)
  have k: "int4_in sample_engine (string_or_empty (?q ''customer_id'')) = Some 999"
    by code_simp
  have unknown: "999 \<notin> c_id ` set (customers seed)"
    by (simp add: seed_def sample_customer_def)
  have valid: "filters_valid sample_engine ?q"
    using k by (simp add: filters_valid_def string_or_empty_def)
  have status: "CHR 0x00 \<notin> set (string_or_empty (?q ''status''))"
    by (simp add: string_or_empty_def)
  have ascii: "ascii_text (string_or_empty (?q ''page''))"
    "ascii_text (string_or_empty (?q ''limit''))"
    by (simp_all add: string_or_empty_def ascii_text_def)
  have p: "number_or (parseInt (?q ''page'')) 1 = 2"
    by (simp add: parseInt_def number_or_def digitValue_def isStrWhiteSpaceChar_def)
  have l: "number_or (parseInt (?q ''limit'')) 10 = 5"
    by (simp add: parseInt_def number_or_def digitValue_def isStrWhiteSpaceChar_def)
  have page: "1 \<le> number_or (parseInt (?q ''page'')) 1" unfolding p by simp
  have limit: "1 \<le> number_or (parseInt (?q ''limit'')) 10" unfolding l by simp
  have limit_safe: "number_or (parseInt (?q ''limit'')) 10 \<le> MAX_SAFE_INTEGER"
    unfolding l by (simp add: MAX_SAFE_INTEGER_def)
  have offset_safe:
    "(number_or (parseInt (?q ''page'')) 1 - 1) * number_or (parseInt (?q ''limit'')) 10
       \<le> MAX_SAFE_INTEGER"
    unfolding p l by (simp add: MAX_SAFE_INTEGER_def)
  show ?thesis
    by (rule unknown_customer_empty_page [of "\<lambda>xs. xs",
          OF s cid k unknown valid status ascii page limit limit_safe offset_safe])
qed

text \<open>
  The claim as stated fails: the sample data has no customer 999, and the request for the
  orders of customer 999 on page -1 is answered with status 500 (the offset is negative);
  so is the request for the orders of customer \<open>abc\<close> (not an integer), and so is the
  request for the orders of customer 999 with the limit \<open>10^20\<close> (not a \<open>bigint\<close>).
\<close>

theorem unknown_customer_counterexample:
  "999 \<notin> c_id ` set (customers seed)
   \<and> orders_get (\<lambda>xs. xs) sample_engine seed [''customer_id'' \<mapsto> ''999'', ''page'' \<mapsto> ''-1'']
       = Status500 ''Failed to fetch orders''
   \<and> orders_get (\<lambda>xs. xs) sample_engine seed [''customer_id'' \<mapsto> ''abc'']
       = Status500 ''Failed to fetch orders''
   \<and> orders_get (\<lambda>xs. xs) sample_engine seed
         [''customer_id'' \<mapsto> ''999'', ''limit'' \<mapsto> ''100000000000000000000'']
       = Status500 ''Failed to fetch orders''"
proof -
  have a: "999 \<notin> c_id ` set (customers seed)"
    by (simp add: seed_def sample_customer_def)
  have b: "orders_get (\<lambda>xs. xs) sample_engine seed
       [''customer_id'' \<mapsto> ''999'', ''page'' \<mapsto> ''-1''] = Status500 ''Failed to fetch orders''"
    by code_simp
  have c: "orders_get (\<lambda>xs. xs) sample_engine seed [''customer_id'' \<mapsto> ''abc'']
       = Status500 ''Failed to fetch orders''"
    by code_simp
  have l: "number_or (parseInt
        ([''customer_id'' \<mapsto> ''999'', ''limit'' \<mapsto> ''100000000000000000000''] ''limit'')) 10
      = 100000000000000000000"
    by (simp add: parseInt_def number_or_def digitValue_def isStrWhiteSpaceChar_def)
  have d: "orders_get (\<lambda>xs. xs) sample_engine seed
         [''customer_id'' \<mapsto> ''999'', ''limit'' \<mapsto> ''100000000000000000000'']
       = Status500 ''Failed to fetch orders''"
    unfolding orders_get_char [OF refl refl] l by simp
  show ?thesis using a b c d by blast
qed

section \<open>Customer listing: search\<close>

lemma like_percent_Nil: "like [CHR ''%''] t"
  by (induction t) simp_all

lemma like_plain_percent:
  "plain s \<Longrightarrow> like (s @ [CHR ''%'']) t \<longleftrightarrow> prefix s t"
proof (induction s arbitrary: t)
  case Nil
  then show ?case by (simp add: like_percent_Nil)
next
  case (Cons c s)
  then have s: "plain s" and c: "c \<noteq> CHR ''%''" "c \<noteq> CHR ''_''" "c \<noteq> CHR 0x5C"
    by (auto simp: plain_def)
  show ?case
  proof (cases t)
    case Nil
    then show ?thesis using c by simp
  next
    case (Cons d u)
    then show ?thesis using c Cons.IH [OF s, of u] by auto
  qed
qed

lemma like_percent:
  "like (CHR ''%'' # p) t \<longleftrightarrow> (\<exists>u. suffix u t \<and> like p u)"
proof (induction t)
  case Nil
  then show ?case by simp
next
  case (Cons c t)
  have "like (CHR ''%'' # p) (c # t) \<longleftrightarrow> like p (c # t) \<or> like (CHR ''%'' # p) t" by simp
  also have "\<dots> \<longleftrightarrow> like p (c # t) \<or> (\<exists>u. suffix u t \<and> like p u)" using Cons.IH by simp
  also have "\<dots> \<longleftrightarrow> (\<exists>u. suffix u (c # t) \<and> like p u)"
    by (auto simp: suffix_Cons)
  finally show ?case .
qed

lemma like_contains:
  assumes "plain s"
  shows "like (CHR ''%'' # s @ [CHR ''%'']) t \<longleftrightarrow> sublist s t"
  unfolding like_percent like_plain_percent [OF assms] sublist_altdef' by blast

lemma to_lower_pattern_char:
  "to_lower c \<in> {CHR ''%'', CHR ''_'', CHR 0x5C} \<longleftrightarrow> c \<in> {CHR ''%'', CHR ''_'', CHR 0x5C}"
  by (cases c) (auto simp: to_lower_def)

lemma to_lower_not_pattern_char:
  assumes "c \<noteq> CHR ''%''" and "c \<noteq> CHR ''_''" and "c \<noteq> CHR 0x5C"
  shows "to_lower c \<noteq> CHR ''%'' \<and> to_lower c \<noteq> CHR ''_'' \<and> to_lower c \<noteq> CHR 0x5C"
  using assms to_lower_pattern_char [of c] by blast

lemma plain_to_lower: "plain s \<Longrightarrow> plain (map to_lower s)"
proof (induction s)
  case Nil
  then show ?case by (simp add: plain_def)
next
  case (Cons c s)
  then have s: "plain (map to_lower s)" and c: "c \<noteq> CHR ''%''" "c \<noteq> CHR ''_''" "c \<noteq> CHR 0x5C"
    by (auto simp: plain_def)
  from to_lower_not_pattern_char [OF c] s show ?case
    unfolding plain_def by auto
qed

lemma to_lower_percent: "to_lower (CHR ''%'') = CHR ''%''"
  by (simp add: to_lower_def)

lemma ilike_contains:
  assumes "plain s"
  shows "ilike str (''%'' @ s @ ''%'') \<longleftrightarrow> contains_ci str s"
proof (cases str)
  case None
  then show ?thesis by (simp add: ilike_def contains_ci_def)
next
  case (Some t)
  have "map to_lower (''%'' @ s @ ''%'') = CHR ''%'' # map to_lower s @ [CHR ''%'']"
    by (simp add: to_lower_percent)
  then show ?thesis
    using Some like_contains [OF plain_to_lower [OF assms], of "map to_lower t"]
    by (simp add: ilike_def contains_ci_def)
qed

lemma trim_nonempty: "trim s \<noteq> [] \<Longrightarrow> s \<noteq> []"
  by (auto simp: trim_def)

text \<open>
  C6, as the code has it: the row query and the count query of the customer listing carry
  the same search clause and value. With a search that is not empty, a customer qualifies
  if and only if its name or its email matches the pattern \<open>%search%\<close> under \<open>ILIKE\<close>; when
  the search is not empty after trimming and has none of the pattern characters \<open>%\<close>, \<open>_\<close> and
  backslash, that is if and only if its name or its email contains the search string (as
  given, not trimmed) without regard to case. With no search or an empty one there is no
  clause, and every customer qualifies.
\<close>

theorem search_predicate:
  assumes f: "customers_filters q = (query, countQuery, queryParams, countParams)"
      and s: "search = string_or_empty (q ''search'')"
  shows "countQuery = query \<and> countParams = queryParams
     \<and> (\<exists>fs. bind_customers_predicates countParams countQuery = Inr fs
          \<and> (\<forall>ws. bind_customers_predicates (queryParams @ ws) query = Inr fs)
          \<and> (search \<noteq> [] \<longrightarrow>
               (\<forall>c. list_all (\<lambda>f. f c) fs \<longleftrightarrow>
                  ilike (c_name c) (''%'' @ search @ ''%'')
                  \<or> ilike (c_email c) (''%'' @ search @ ''%'')))
          \<and> (trim search \<noteq> [] \<and> plain search \<longrightarrow>
               (\<forall>c. list_all (\<lambda>f. f c) fs \<longleftrightarrow>
                  contains_ci (c_name c) search \<or> contains_ci (c_email c) search))
          \<and> (search = [] \<longrightarrow> fs = [] \<and> (\<forall>c. list_all (\<lambda>f. f c) fs)))"
proof (cases "search = []")
  case True
  then have "query = []" "countQuery = []" "queryParams = []" "countParams = []"
    using f unfolding customers_filters_def Let_def s [symmetric] by simp_all
  then show ?thesis using True by (simp add: trim_def)
next
  case False
  let ?pat = "''%'' @ search @ ''%''"
  let ?f = "\<lambda>c :: customer_row. ilike (c_name c) ?pat \<or> ilike (c_email c) ?pat"
  have q: "query = [name_or_email_ilike 1]" "countQuery = [name_or_email_ilike 1]"
    "queryParams = [JString ?pat]" "countParams = [JString ?pat]"
    using f False unfolding customers_filters_def Let_def s [symmetric] by auto
  have b: "bind_customers_predicates ([JString ?pat] @ ws) [name_or_email_ilike 1] = Inr [?f]"
    for ws
    by (simp add: placeholder_def to_text_def)
  have b0: "bind_customers_predicates [JString ?pat] [name_or_email_ilike 1] = Inr [?f]"
    using b [of "[]"] by simp
  have c: "list_all (\<lambda>f. f c) [?f]
      \<longleftrightarrow> contains_ci (c_name c) search \<or> contains_ci (c_email c) search"
    if "trim search \<noteq> [] \<and> plain search" for c
    using that ilike_contains [of search] by simp
  have d: "list_all (\<lambda>f. f c) [?f] \<longleftrightarrow> ilike (c_name c) ?pat \<or> ilike (c_email c) ?pat" for c
    by simp
  have E: "\<exists>fs. bind_customers_predicates [JString ?pat] [name_or_email_ilike 1] = Inr fs
          \<and> (\<forall>ws. bind_customers_predicates ([JString ?pat] @ ws) [name_or_email_ilike 1]
                = Inr fs)
          \<and> (search \<noteq> [] \<longrightarrow>
               (\<forall>c. list_all (\<lambda>f. f c) fs \<longleftrightarrow>
                  ilike (c_name c) ?pat \<or> ilike (c_email c) ?pat))
          \<and> (trim search \<noteq> [] \<and> plain search \<longrightarrow>
               (\<forall>c. list_all (\<lambda>f. f c) fs \<longleftrightarrow>
                  contains_ci (c_name c) search \<or> contains_ci (c_email c) search))
          \<and> (search = [] \<longrightarrow> fs = [] \<and> (\<forall>c. list_all (\<lambda>f. f c) fs))"
  proof (intro exI [of _ "[?f]"] conjI allI impI)
    show "bind_customers_predicates [JString ?pat] [name_or_email_ilike 1] = Inr [?f]"
      by (rule b0)
    show "bind_customers_predicates ([JString ?pat] @ ws) [name_or_email_ilike 1] = Inr [?f]"
      for ws by (rule b)
    show "list_all (\<lambda>f. f c) [?f] \<longleftrightarrow> ilike (c_name c) ?pat \<or> ilike (c_email c) ?pat" for c
      by (rule d)
    show "list_all (\<lambda>f. f c) [?f]
      \<longleftrightarrow> contains_ci (c_name c) search \<or> contains_ci (c_email c) search"
      if "trim search \<noteq> [] \<and> plain search" for c
      by (rule c [OF that])
    show "[?f] = []" if "search = []" using that False by simp
    show "list_all (\<lambda>f. f c) [?f]" if "search = []" for c using that False by simp
  qed
  show ?thesis unfolding q by (intro conjI refl E)
qed

text \<open>
  The sample data, searched for \<open>EXAMPLE\<close>: customer A qualifies, since its email contains
  the word in lower case.
\<close>

theorem search_predicate_witness:
  "trim ''EXAMPLE'' \<noteq> [] \<and> plain ''EXAMPLE''
   \<and> contains_ci (c_email (sample_customer 1 ''A'' ''a@example.com'' 1)) ''EXAMPLE''
   \<and> (\<exists>fs. bind_customers_predicates [JString ''%EXAMPLE%''] [name_or_email_ilike 1] = Inr fs
         \<and> list_all (\<lambda>f. f (sample_customer 1 ''A'' ''a@example.com'' 1)) fs)
   \<and> (\<exists>fs. bind_customers_predicates [] [] = Inr fs
         \<and> list_all (\<lambda>f. f (sample_customer 1 ''A'' ''a@example.com'' 1)) fs)"
proof -
  let ?q = "[''search'' \<mapsto> ''EXAMPLE'']"
  let ?A = "sample_customer 1 ''A'' ''a@example.com'' 1"
  have f: "customers_filters ?q
      = ([name_or_email_ilike 1], [name_or_email_ilike 1],
         [JString ''%EXAMPLE%''], [JString ''%EXAMPLE%''])"
    by (simp add: customers_filters_def string_or_empty_def)
  have s: "''EXAMPLE'' = string_or_empty (?q ''search'')" by (simp add: string_or_empty_def)
  have t: "trim ''EXAMPLE'' \<noteq> []" by code_simp
  have p: "plain ''EXAMPLE''" by (simp add: plain_def)
  have c: "contains_ci (c_email ?A) ''EXAMPLE''" by code_simp
  have f0: "customers_filters Map.empty = ([], [], [], [])"
    by (simp add: customers_filters_def string_or_empty_def)
  have s0: "[] = string_or_empty (Map.empty ''search'')" by (simp add: string_or_empty_def)
  from search_predicate [OF f s] t p c
  have a: "\<exists>fs. bind_customers_predicates [JString ''%EXAMPLE%''] [name_or_email_ilike 1] = Inr fs
         \<and> list_all (\<lambda>f. f ?A) fs"
    by blast
  from search_predicate [OF f0 s0]
  have b: "\<exists>fs. bind_customers_predicates [] [] = Inr fs \<and> list_all (\<lambda>f. f ?A) fs"
    by blast
  show ?thesis using t p c a b by blast
qed

text \<open>
  The claim as stated fails: searched for \<open>_\<close>, the sample data gives both customers, in the
  rows and in the count, though neither the name nor the email of customer A contains an
  underscore.
\<close>

theorem search_predicate_counterexample:
  "trim (string_or_empty ([''search'' \<mapsto> ''_''] ''search'')) \<noteq> []
   \<and> \<not> contains_ci (c_name (sample_customer 1 ''A'' ''a@example.com'' 1)) ''_''
   \<and> \<not> contains_ci (c_email (sample_customer 1 ''A'' ''a@example.com'' 1)) ''_''
   \<and> customers_get (\<lambda>xs. xs) sample_engine seed [''search'' \<mapsto> ''_'']
       = Json sample_customers_body
   \<and> sample_customer 1 ''A'' ''a@example.com'' 1
       \<in> customer_columns ` set (customers_rows sample_customers_body)
   \<and> totalCount (customers_pagination sample_customers_body) = int (length (customers seed))"
proof -
  have a: "trim (string_or_empty ([''search'' \<mapsto> ''_''] ''search'')) \<noteq> []" by code_simp
  have b: "\<not> contains_ci (c_name (sample_customer 1 ''A'' ''a@example.com'' 1)) ''_''"
    by code_simp
  have c: "\<not> contains_ci (c_email (sample_customer 1 ''A'' ''a@example.com'' 1)) ''_''"
    by code_simp
  have d: "customers_get (\<lambda>xs. xs) sample_engine seed [''search'' \<mapsto> ''_'']
       = Json sample_customers_body"
    by code_simp
  have e: "sample_customer 1 ''A'' ''a@example.com'' 1
       \<in> customer_columns ` set (customers_rows sample_customers_body)"
    by (simp add: sample_customers_body_def)
  have g: "totalCount (customers_pagination sample_customers_body) = int (length (customers seed))"
    by (simp add: sample_customers_body_def seed_def)
  show ?thesis using a b c d e g by blast
qed

section \<open>Charts: orders over time\<close>

lemma group_by_keys: "map fst (group_by key rows) = remdups (map key rows)"
  by (simp add: group_by_def comp_def)

lemma group_by_mem:
  "(k, g) \<in> set (group_by key rows) \<longleftrightarrow> k \<in> key ` set rows \<and> g = filter (\<lambda>r. key r = k) rows"
  by (auto simp: group_by_def)

lemma group_by_Nil_iff: "group_by key rows = [] \<longleftrightarrow> rows = []"
  by (simp add: group_by_def)

lemma scan_set: "(\<And>xs. mset (scan xs) = mset xs) \<Longrightarrow> set (scan xs) = set xs"
  by (metis set_mset_mset)

lemma scan_Nil_iff: "(\<And>xs. mset (scan xs) = mset xs) \<Longrightarrow> scan xs = [] \<longleftrightarrow> xs = []"
  by (metis mset_zero_iff)

text \<open>
  C8, as the code has it: the orders-over-time endpoint returns one row for each calendar
  date on or after the current date minus \<open>days\<close> (30 by default) that has at least one
  order, with the number and the summed total of that date's orders, in ascending order of
  date; such a date without orders has no row, and the array is empty exactly when no
  order is dated on or after the current date minus \<open>days\<close>. The window has no upper end.
\<close>

theorem orders_over_time_rows:
  assumes scan: "\<And>xs. mset (scan xs) = mset xs"
      and res: "orders_over_time scan eng db q = Json rows"
      and days: "days = number_or (parseInt (q ''days'')) 30"
  shows "sorted_wrt (<) (map ot_date rows)
     \<and> set (map ot_date rows)
         = {d. current_date eng - days \<le> d \<and> (\<exists>r \<in> set (orders db). o_order_date r = d)}
     \<and> (\<forall>row \<in> set rows.
           ot_order_count row = int (length (orders_on db (ot_date row)))
           \<and> ot_revenue row = sum_list (map o_total (orders_on db (ot_date row))))
     \<and> (rows = [] \<longleftrightarrow> (\<forall>r \<in> set (orders db). o_order_date r < current_date eng - days))"
proof -
  define R where "R = filter (\<lambda>r. o_order_date r \<ge> current_date eng - days) (orders db)"
  define S where "S = map orders_over_time_select (group_by o_order_date R)"
  have rows: "rows = sort_key ot_date (scan S)"
    using res unfolding orders_over_time_def Let_def days [symmetric] S_def R_def order_by_asc_def
    by (simp split: if_splits)
  have dS: "map ot_date S = remdups (map o_order_date R)"
    unfolding S_def group_by_keys [symmetric] by (simp add: orders_over_time_select_def)
  have m: "mset (map ot_date rows) = mset (map ot_date S)"
    unfolding rows by (simp add: scan)
  have "distinct (map ot_date S)" unfolding dS by simp
  then have d: "distinct (map ot_date rows)"
    using m by (metis mset_eq_imp_distinct_iff)
  have s: "sorted (map ot_date rows)" unfolding rows by (rule sorted_sort_key)
  have a: "sorted_wrt (<) (map ot_date rows)" using s d by (simp add: strict_sorted_iff)
  have "set (map ot_date rows) = set (map ot_date S)" using m by (rule mset_eq_setD)
  also have "\<dots> = o_order_date ` set R" unfolding dS by simp
  also have "\<dots> = {d. current_date eng - days \<le> d \<and> (\<exists>r \<in> set (orders db). o_order_date r = d)}"
    unfolding R_def by auto
  finally have b: "set (map ot_date rows)
      = {d. current_date eng - days \<le> d \<and> (\<exists>r \<in> set (orders db). o_order_date r = d)}" .
  have c: "ot_order_count row = int (length (orders_on db (ot_date row)))
           \<and> ot_revenue row = sum_list (map o_total (orders_on db (ot_date row)))"
    if "row \<in> set rows" for row
  proof -
    from that have "row \<in> set S" unfolding rows by (simp add: scan_set [OF scan])
    then obtain k g where kg: "(k, g) \<in> set (group_by o_order_date R)"
      and row: "row = orders_over_time_select (k, g)"
      unfolding S_def by auto
    from kg have k: "k \<in> o_order_date ` set R" and g: "g = filter (\<lambda>r. o_order_date r = k) R"
      by (simp_all add: group_by_mem)
    from k have "current_date eng - days \<le> k" unfolding R_def by auto
    then have "g = orders_on db k"
      unfolding g R_def orders_on_def by (auto intro!: filter_cong)
    then show ?thesis unfolding row by (simp add: orders_over_time_select_def sql_count_def)
  qed
  have "rows = [] \<longleftrightarrow> scan S = []"
    unfolding rows by (metis length_sort length_0_conv)
  also have "\<dots> \<longleftrightarrow> S = []" by (rule scan_Nil_iff [OF scan])
  also have "\<dots> \<longleftrightarrow> R = []" unfolding S_def by (simp add: group_by_Nil_iff)
  also have "\<dots> \<longleftrightarrow> (\<forall>r \<in> set (orders db). o_order_date r < current_date eng - days)"
    unfolding R_def by (auto simp: filter_empty_conv)
  finally have e: "rows = [] \<longleftrightarrow> (\<forall>r \<in> set (orders db). o_order_date r < current_date eng - days)" .
  show ?thesis using a b c e by blast
qed

text \<open>
  The sample data on day 40, with the default 30 days: one row for each of the days 15, 16
  and 17.
\<close>

theorem orders_over_time_rows_witness:
  "orders_over_time (\<lambda>xs. xs) sample_engine seed Map.empty = Json sample_orders_over_time
   \<and> sorted_wrt (<) (map ot_date sample_orders_over_time)
   \<and> set (map ot_date sample_orders_over_time)
       = {d. current_date sample_engine - 30 \<le> d \<and> (\<exists>r \<in> set (orders seed). o_order_date r = d)}
   \<and> sample_orders_over_time \<noteq> []
   \<and> (\<exists>r \<in> set (orders seed). \<not> o_order_date r < current_date sample_engine - 30)"
proof -
  have s: "mset ((\<lambda>xs. xs) xs) = mset xs" for xs :: "orders_over_time_row list" by simp
  have r: "orders_over_time (\<lambda>xs. xs) sample_engine seed Map.empty = Json sample_orders_over_time"
    by code_simp
  have d: "30 = number_or (parseInt (Map.empty ''days'')) 30" by code_simp
  have n: "sample_orders_over_time \<noteq> []" by (simp add: sample_orders_over_time_def)
  from orders_over_time_rows [of "\<lambda>xs. xs", OF s r d] n r show ?thesis by blast
qed

text \<open>
  The claim as stated fails: on day 40 the only order is dated day 50, so the trailing
  window of 30 days holds no order, and the endpoint returns a row for day 50.
\<close>

theorem orders_over_time_counterexample:
  "filter (\<lambda>r. in_trailing_window (current_date sample_engine) 30 (o_order_date r))
       (orders future_order_db) = []
   \<and> orders_over_time (\<lambda>xs. xs) sample_engine future_order_db Map.empty
       = Json [\<lparr> ot_date = 50, ot_order_count = 1, ot_revenue = 10 \<rparr>]"
proof -
  have a: "filter (\<lambda>r. in_trailing_window (current_date sample_engine) 30 (o_order_date r))
       (orders future_order_db) = []"
    by code_simp
  have b: "orders_over_time (\<lambda>xs. xs) sample_engine future_order_db Map.empty
       = Json [\<lparr> ot_date = 50, ot_order_count = 1, ot_revenue = 10 \<rparr>]"
    by code_simp
  show ?thesis using a b by blast
qed

section \<open>Grouping a join by the key of its outer table\<close>

lemma group_by_append:
  assumes "key ` set xs \<inter> key ` set ys = {}"
  shows "group_by key (xs @ ys) = group_by key xs @ group_by key ys"
proof -
  have r: "remdups (map key xs @ map key ys) = remdups (map key xs) @ remdups (map key ys)"
    using assms
  proof (induction xs)
    case Nil
    then show ?case by simp
  next
    case (Cons x xs)
    then have "key x \<notin> key ` set ys" and "key ` set xs \<inter> key ` set ys = {}" by auto
    with Cons.IH show ?case by auto
  qed
  have a: "filter (\<lambda>r. key r = k) (xs @ ys) = filter (\<lambda>r. key r = k) xs"
    if "k \<in> key ` set xs" for k
  proof -
    have "filter (\<lambda>r. key r = k) ys = []" using that assms by (auto simp: filter_empty_conv)
    then show ?thesis by simp
  qed
  have b: "filter (\<lambda>r. key r = k) (xs @ ys) = filter (\<lambda>r. key r = k) ys"
    if "k \<in> key ` set ys" for k
  proof -
    have "filter (\<lambda>r. key r = k) xs = []" using that assms by (auto simp: filter_empty_conv)
    then show ?thesis by simp
  qed
  show ?thesis
    unfolding group_by_def map_append r
    using a b by (auto intro!: map_cong)
qed

lemma group_by_constant:
  assumes "xs \<noteq> []" and "\<And>x. x \<in> set xs \<Longrightarrow> key x = k"
  shows "group_by key xs = [(k, xs)]"
proof -
  have "remdups (map key xs) = [k]" using assms
  proof (induction xs)
    case Nil
    then show ?case by simp
  next
    case (Cons x xs)
    show ?case
    proof (cases "xs = []")
      case True
      then show ?thesis using Cons.prems by simp
    next
      case False
      then have "remdups (map key xs) = [k]" using Cons by simp
      moreover have "key x = k" using Cons.prems by simp
      moreover have "k \<in> key ` set xs" using False Cons.prems by (cases xs) auto
      ultimately show ?thesis by simp
    qed
  qed
  moreover have "filter (\<lambda>r. key r = k) xs = xs" using assms(2) by (simp add: filter_id_conv)
  ultimately show ?thesis by (simp add: group_by_def)
qed

lemma group_by_join:
  assumes "distinct (map kf cs)"
  shows "group_by (\<lambda>j. kf (fst j)) (concat (map (\<lambda>c. map (Pair c) (g c)) cs))
       = map (\<lambda>c. (kf c, map (Pair c) (g c))) (filter (\<lambda>c. g c \<noteq> []) cs)"
  using assms
proof (induction cs)
  case Nil
  then show ?case by (simp add: group_by_def)
next
  case (Cons c cs)
  let ?key = "\<lambda>j. kf (fst j)"
  let ?A = "map (Pair c) (g c)"
  let ?B = "concat (map (\<lambda>c. map (Pair c) (g c)) cs)"
  have d: "distinct (map kf cs)" and n: "kf c \<notin> kf ` set cs" using Cons.prems by simp_all
  have kA: "?key x = kf c" if "x \<in> set ?A" for x using that by auto
  have kB: "?key ` set ?B \<subseteq> kf ` set cs" by auto
  have dis: "?key ` set ?A \<inter> ?key ` set ?B = {}" using kA kB n by fastforce
  have ap: "group_by ?key (?A @ ?B) = group_by ?key ?A @ group_by ?key ?B"
    by (rule group_by_append [OF dis])
  have gA: "group_by ?key ?A = (if g c = [] then [] else [(kf c, ?A)])"
  proof (cases "g c = []")
    case True
    then show ?thesis by (simp add: group_by_def)
  next
    case False
    then have "?A \<noteq> []" by simp
    from group_by_constant [OF this kA] False show ?thesis by simp
  qed
  show ?case
    using ap gA Cons.IH [OF d] by simp
qed

section \<open>Charts: revenue by customer\<close>

lemma filter_join:
  "filter (\<lambda>j. P (snd j)) (concat (map (\<lambda>c. map (Pair c) (g c)) cs))
     = concat (map (\<lambda>c. map (Pair c) (filter P (g c))) cs)"
  by (induction cs) (simp_all add: filter_map comp_def)

lemma distinct_id_name:
  assumes "distinct (map c_id cs)"
  shows "distinct (map (\<lambda>c. (c_id c, c_name c)) cs)"
proof -
  have "map c_id cs = map fst (map (\<lambda>c. (c_id c, c_name c)) cs)" by simp
  then show ?thesis using assms by (metis distinct_map)
qed

lemma revenue_by_customer_groups:
  assumes "distinct (map c_id (customers db))"
  shows "map revenue_by_customer_select
           (group_by (\<lambda>j. (c_id (fst j), c_name (fst j)))
             (filter (\<lambda>j. o_status (snd j) = ''completed'') (revenue_by_customer_from db)))
       = map (revenue_row db) (filter (\<lambda>c. completed_orders_of db c \<noteq> []) (customers db))"
proof -
  have f: "filter (\<lambda>j. o_status (snd j) = ''completed'') (revenue_by_customer_from db)
      = concat (map (\<lambda>c. map (Pair c) (completed_orders_of db c)) (customers db))"
    unfolding revenue_by_customer_from_def completed_orders_of_def by (rule filter_join)
  have s: "revenue_by_customer_select ((c_id c, c_name c), map (Pair c) os)
      = \<lparr> rc_name = c_name c, rc_total_revenue = sum_list (map o_total os),
          rc_order_count = int (length os) \<rparr>" for c :: customer_row and os
    by (simp add: revenue_by_customer_select_def sql_count_def comp_def)
  show ?thesis
    unfolding f group_by_join [OF distinct_id_name [OF assms]]
    by (simp add: s revenue_row_def comp_def)
qed

lemma sorted_order_by_desc:
  "sorted_wrt (\<lambda>a b. key a \<ge> key b) (order_by_desc key rows)"
proof -
  have "sorted (map (\<lambda>r. - key r) (order_by_desc key rows))"
    unfolding order_by_desc_def by (rule sorted_sort_key)
  then show ?thesis by (simp add: sorted_map)
qed

lemma mset_order_by_desc: "mset (order_by_desc key rows) = mset rows"
  by (simp add: order_by_desc_def)

text \<open>
  C7, as the code has it: with unique customer ids, the revenue-by-customer endpoint returns
  the first \<open>N\<close> rows (\<open>N\<close> the limit parameter, 10 by default) of a ranking that has one row
  for each customer with at least one completed order, carrying the customer's name and the
  sum and number of the customer's completed orders, in descending order of that sum. The
  statement sorts by the sum only: the order of customers with equal sums is the order in
  which the engine delivers them.
\<close>

theorem revenue_by_customer_top:
  assumes scan: "\<And>xs. mset (scan xs) = mset xs"
      and pk: "distinct (map c_id (customers db))"
      and res: "revenue_by_customer scan eng db q = Json rows"
      and N: "N = number_or (parseInt (q ''limit'')) 10"
  shows "\<exists>ranking. rows = take (nat N) ranking
     \<and> sorted_wrt (\<lambda>a b. rc_total_revenue a \<ge> rc_total_revenue b) ranking
     \<and> mset ranking
         = mset (map (revenue_row db)
             (filter (\<lambda>c. completed_orders_of db c \<noteq> []) (customers db)))"
proof (intro exI [of _ "revenue_by_customer_ranking scan db"] conjI)
  show "rows = take (nat N) (revenue_by_customer_ranking scan db)"
    using res unfolding revenue_by_customer_def Let_def N [symmetric]
    by (simp add: placeholder_def to_integer_def split: if_splits)
  show "sorted_wrt (\<lambda>a b. rc_total_revenue a \<ge> rc_total_revenue b)
      (revenue_by_customer_ranking scan db)"
    unfolding revenue_by_customer_ranking_def by (rule sorted_order_by_desc)
  show "mset (revenue_by_customer_ranking scan db)
      = mset (map (revenue_row db)
             (filter (\<lambda>c. completed_orders_of db c \<noteq> []) (customers db)))"
    unfolding revenue_by_customer_ranking_def mset_order_by_desc scan
      revenue_by_customer_groups [OF pk] ..
qed

text \<open>
  Customers X, Y and Z with completed sums 500, 500 and 300, delivered in table order: the
  ranking is X, Y, Z.
\<close>

theorem revenue_by_customer_top_witness:
  "distinct (map c_id (customers tied_revenue_db))
   \<and> revenue_by_customer (\<lambda>xs. xs) sample_engine tied_revenue_db Map.empty
       = Json [\<lparr> rc_name = Some ''X'', rc_total_revenue = 500, rc_order_count = 1 \<rparr>,
               \<lparr> rc_name = Some ''Y'', rc_total_revenue = 500, rc_order_count = 2 \<rparr>,
               \<lparr> rc_name = Some ''Z'', rc_total_revenue = 300, rc_order_count = 1 \<rparr>]
   \<and> (\<exists>ranking.
         [\<lparr> rc_name = Some ''X'', rc_total_revenue = 500, rc_order_count = 1 \<rparr>,
          \<lparr> rc_name = Some ''Y'', rc_total_revenue = 500, rc_order_count = 2 \<rparr>,
          \<lparr> rc_name = Some ''Z'', rc_total_revenue = 300, rc_order_count = 1 \<rparr>]
           = take (nat 10) ranking
         \<and> sorted_wrt (\<lambda>a b. rc_total_revenue a \<ge> rc_total_revenue b) ranking
         \<and> mset ranking
             = mset (map (revenue_row tied_revenue_db)
                 (filter (\<lambda>c. completed_orders_of tied_revenue_db c \<noteq> [])
                   (customers tied_revenue_db))))"
proof -
  have s: "mset ((\<lambda>xs. xs) xs) = mset xs" for xs :: "revenue_by_customer_row list" by simp
  have pk: "distinct (map c_id (customers tied_revenue_db))"
    by (simp add: tied_revenue_db_def sample_customer_def)
  have r: "revenue_by_customer (\<lambda>xs. xs) sample_engine tied_revenue_db Map.empty
       = Json [\<lparr> rc_name = Some ''X'', rc_total_revenue = 500, rc_order_count = 1 \<rparr>,
               \<lparr> rc_name = Some ''Y'', rc_total_revenue = 500, rc_order_count = 2 \<rparr>,
               \<lparr> rc_name = Some ''Z'', rc_total_revenue = 300, rc_order_count = 1 \<rparr>]"
    by code_simp
  have n: "10 = number_or (parseInt (Map.empty ''limit'')) 10" by code_simp
  from revenue_by_customer_top [of "\<lambda>xs. xs", OF s pk r n] pk r show ?thesis by blast
qed

text \<open>
  The claim as stated fails: on the same data the two customers with 500 come out as X, Y
  when the engine delivers the groups in table order, and as Y, X when it delivers them in
  the reverse order.
\<close>

theorem revenue_by_customer_counterexample:
  "revenue_by_customer (\<lambda>xs. xs) sample_engine tied_revenue_db Map.empty
       = Json [\<lparr> rc_name = Some ''X'', rc_total_revenue = 500, rc_order_count = 1 \<rparr>,
               \<lparr> rc_name = Some ''Y'', rc_total_revenue = 500, rc_order_count = 2 \<rparr>,
               \<lparr> rc_name = Some ''Z'', rc_total_revenue = 300, rc_order_count = 1 \<rparr>]
   \<and> revenue_by_customer rev sample_engine tied_revenue_db Map.empty
       = Json [\<lparr> rc_name = Some ''Y'', rc_total_revenue = 500, rc_order_count = 2 \<rparr>,
               \<lparr> rc_name = Some ''X'', rc_total_revenue = 500, rc_order_count = 1 \<rparr>,
               \<lparr> rc_name = Some ''Z'', rc_total_revenue = 300, rc_order_count = 1 \<rparr>]"
proof -
  have a: "revenue_by_customer (\<lambda>xs. xs) sample_engine tied_revenue_db Map.empty
       = Json [\<lparr> rc_name = Some ''X'', rc_total_revenue = 500, rc_order_count = 1 \<rparr>,
               \<lparr> rc_name = Some ''Y'', rc_total_revenue = 500, rc_order_count = 2 \<rparr>,
               \<lparr> rc_name = Some ''Z'', rc_total_revenue = 300, rc_order_count = 1 \<rparr>]"
    by code_simp
  have b: "revenue_by_customer rev sample_engine tied_revenue_db Map.empty
       = Json [\<lparr> rc_name = Some ''Y'', rc_total_revenue = 500, rc_order_count = 2 \<rparr>,
               \<lparr> rc_name = Some ''X'', rc_total_revenue = 500, rc_order_count = 1 \<rparr>,
               \<lparr> rc_name = Some ''Z'', rc_total_revenue = 300, rc_order_count = 1 \<rparr>]"
    by code_simp
  show ?thesis using a b by blast
qed

section \<open>Customer listing: aggregates and grouping\<close>

lemma customers_get_char:
  assumes p: "p = number_or (parseInt (q ''page'')) 1"
      and l: "l = number_or (parseInt (q ''limit'')) 10"
  shows "customers_get scan eng db q
     = (if 0 \<le> (p - 1) * l \<and> (p - 1) * l < 2 ^ 63 \<and> 0 \<le> l \<and> l < 2 ^ 63
        then Json
          \<lparr> customers_rows = take (nat l) (drop (nat ((p - 1) * l))
              (order_by_desc (\<lambda>row. c_created_at (customer_columns row))
                (scan (concat (map customers_select
                  (group_by (\<lambda>j. c_id (fst j))
                    (filter (\<lambda>j. customer_qualifies q (fst j)) (customers_from db)))))))),
            customers_pagination = paginate p l
              (int (length (filter (customer_qualifies q) (customers db)))) \<rparr>
        else Status500 ''Failed to fetch customers'')"
proof (cases "string_or_empty (q ''search'') = []")
  case True
  have f: "customers_filters q = ([], [], [], [])"
    using True by (simp add: customers_filters_def)
  have c: "customer_qualifies q = (\<lambda>c. True)"
    using True by (simp add: customer_qualifies_def fun_eq_iff)
  show ?thesis
    unfolding customers_get_def Let_def f p [symmetric] l [symmetric] c
    by (simp add: customers_query_def customers_query_unpaginated_def customers_count_query_def
        placeholder_def to_integer_def limit_offset_def sql_count_def)
next
  case False
  let ?pat = "''%'' @ string_or_empty (q ''search'') @ ''%''"
  have f: "customers_filters q
      = ([name_or_email_ilike 1], [name_or_email_ilike 1], [JString ?pat], [JString ?pat])"
    using False by (simp add: customers_filters_def Let_def)
  have c: "customer_qualifies q
      = (\<lambda>c. ilike (c_name c) ?pat \<or> ilike (c_email c) ?pat)"
    using False by (simp add: customer_qualifies_def fun_eq_iff Let_def)
  show ?thesis
    unfolding customers_get_def Let_def f p [symmetric] l [symmetric] c
    by (simp add: customers_query_def customers_query_unpaginated_def customers_count_query_def
        placeholder_def to_integer_def to_text_def limit_offset_def sql_count_def)
qed

lemma filter_join_outer:
  "filter (\<lambda>j. P (fst j)) (concat (map (\<lambda>c. map (Pair c) (g c)) cs))
     = concat (map (\<lambda>c. map (Pair c) (if P c then g c else [])) cs)"
  by (induction cs) (simp_all add: filter_map comp_def)

lemma non_null_map_Some: "non_null (map (\<lambda>x. Some (f x)) xs) = map f xs"
  by (induction xs) simp_all

lemma concat_map_singleton:
  "(\<And>x. x \<in> set xs \<Longrightarrow> f x = [g x]) \<Longrightarrow> concat (map f xs) = map g xs"
  by (induction xs) simp_all

lemma customers_select_group:
  fixes c :: customer_row and db :: database
  defines "ms \<equiv> filter (\<lambda>r. c_id c = o_customer_id r) (orders db)"
  shows "customers_select
           (k, map (Pair c) (case ms of [] \<Rightarrow> [None] | _ # _ \<Rightarrow> map Some ms))
       = [customer_with_aggregates db c]"
proof (cases ms)
  case Nil
  then show ?thesis
    using ms_def
    by (simp add: customer_with_aggregates_def orders_of_def sql_count_def sql_sum_def
        coalesce_def)
next
  case (Cons m ms')
  have a: "non_null (map (map_option o_id \<circ> snd) (map (Pair c) (map Some ms))) = map o_id ms"
    by (simp add: comp_def non_null_map_Some)
  have b: "non_null (map (map_option o_total \<circ> snd) (map (Pair c) (map Some ms)))
      = map o_total ms"
    by (simp add: comp_def non_null_map_Some)
  have sel: "customers_select (k, map (Pair c) (map Some ms))
      = [\<lparr> customer_columns = c,
           order_count = sql_count (non_null (map (map_option o_id \<circ> snd)
             (map (Pair c) (map Some ms)))),
           total_spent = coalesce (sql_sum (non_null (map (map_option o_total \<circ> snd)
             (map (Pair c) (map Some ms))))) 0 \<rparr>]"
    unfolding Cons by simp
  have ne: "ms \<noteq> []" using Cons by simp
  have "customers_select (k, map (Pair c) (map Some ms)) = [customer_with_aggregates db c]"
    unfolding sel a b using ne ms_def
    by (simp add: customer_with_aggregates_def orders_of_def sql_count_def sql_sum_def
        coalesce_def)
  then show ?thesis using Cons by simp
qed

lemma customers_groups:
  assumes "distinct (map c_id (customers db))"
  shows "concat (map customers_select
           (group_by (\<lambda>j. c_id (fst j))
             (filter (\<lambda>j. Q (fst j)) (customers_from db))))
       = map (customer_with_aggregates db) (filter Q (customers db))"
proof -
  let ?lj = "\<lambda>c. case filter (\<lambda>r. c_id c = o_customer_id r) (orders db) of
                   [] \<Rightarrow> [None] | m # ms \<Rightarrow> map Some (m # ms)"
  let ?g = "\<lambda>c. if Q c then ?lj c else []"
  have lj: "?lj c \<noteq> []" for c :: customer_row
    by (simp split: list.splits)
  have from_eq: "customers_from db = concat (map (\<lambda>c. map (Pair c) (?lj c)) (customers db))"
    by (simp add: customers_from_def)
  have f: "filter (\<lambda>j. Q (fst j)) (customers_from db)
      = concat (map (\<lambda>c. map (Pair c) (?g c)) (customers db))"
    unfolding from_eq by (rule filter_join_outer)
  have ne: "filter (\<lambda>c. ?g c \<noteq> []) (customers db) = filter Q (customers db)"
    by (intro filter_cong refl) (simp add: lj)
  have sel: "customers_select (c_id c, map (Pair c) (?lj c)) = [customer_with_aggregates db c]"
    for c
    using customers_select_group [of "c_id c" c db]
    by (cases "filter (\<lambda>r. c_id c = o_customer_id r) (orders db)") simp_all
  have "concat (map (\<lambda>c. customers_select (c_id c, map (Pair c) (?g c)))
           (filter Q (customers db)))
      = map (customer_with_aggregates db) (filter Q (customers db))"
    by (rule concat_map_singleton) (simp add: sel)
  then have "concat (map customers_select
           (map (\<lambda>c. (c_id c, map (Pair c) (?g c))) (filter Q (customers db))))
      = map (customer_with_aggregates db) (filter Q (customers db))"
    by (simp add: comp_def)
  then show ?thesis
    unfolding f group_by_join [OF assms] ne .
qed

text \<open>
  C4: with unique customer ids, the rows of a customer-listing response are a page, cut by
  \<open>LIMIT\<close> and \<open>OFFSET\<close>, of the grouped set: that set has exactly one row for each
  qualifying customer, newest customers first, and each row carries the customer's columns,
  the number of orders that reference the customer and the sum of their totals, both 0 for
  a customer without orders.
\<close>

theorem customer_listing_rows:
  assumes scan: "\<And>xs. mset (scan xs) = mset xs"
      and pk: "distinct (map c_id (customers db))"
      and res: "customers_get scan eng db q = Json body"
      and p: "p = number_or (parseInt (q ''page'')) 1"
      and l: "l = number_or (parseInt (q ''limit'')) 10"
  shows "\<exists>grouped.
       customers_rows body = take (nat l) (drop (nat ((p - 1) * l)) grouped)
     \<and> mset grouped
         = mset (map (customer_with_aggregates db)
             (filter (customer_qualifies q) (customers db)))
     \<and> distinct (map (\<lambda>row. c_id (customer_columns row)) grouped)
     \<and> sorted_wrt (\<lambda>a b. c_created_at (customer_columns a) \<ge> c_created_at (customer_columns b))
         grouped
     \<and> (\<forall>row \<in> set grouped.
           order_count row = int (length (orders_of db (customer_columns row)))
           \<and> total_spent row = sum_list (map o_total (orders_of db (customer_columns row)))
           \<and> (orders_of db (customer_columns row) = [] \<longrightarrow>
                order_count row = 0 \<and> total_spent row = 0))"
proof -
  let ?S = "map (customer_with_aggregates db) (filter (customer_qualifies q) (customers db))"
  define grouped where
    "grouped = order_by_desc (\<lambda>row. c_created_at (customer_columns row)) (scan ?S)"
  note c = customers_get_char [OF p l, of scan eng db]
  have v: "0 \<le> (p - 1) * l \<and> (p - 1) * l < 2 ^ 63 \<and> 0 \<le> l \<and> l < 2 ^ 63"
    using res unfolding c by (simp split: if_splits)
  have a: "customers_rows body = take (nat l) (drop (nat ((p - 1) * l)) grouped)"
    using res v unfolding c grouped_def customers_groups [OF pk] by auto
  have m: "mset grouped = mset ?S"
    unfolding grouped_def mset_order_by_desc scan ..
  have "mset (map (\<lambda>row. c_id (customer_columns row)) grouped)
      = mset (map (\<lambda>row. c_id (customer_columns row)) ?S)"
    using m by (metis mset_map)
  also have "map (\<lambda>row. c_id (customer_columns row)) ?S
      = map c_id (filter (customer_qualifies q) (customers db))"
    by (simp add: customer_with_aggregates_def comp_def)
  finally have "mset (map (\<lambda>row. c_id (customer_columns row)) grouped)
      = mset (map c_id (filter (customer_qualifies q) (customers db)))" .
  moreover have "distinct (map c_id (filter (customer_qualifies q) (customers db)))"
    using pk by (rule distinct_map_filter)
  ultimately have d: "distinct (map (\<lambda>row. c_id (customer_columns row)) grouped)"
    by (metis mset_eq_imp_distinct_iff)
  have s: "sorted_wrt (\<lambda>a b. c_created_at (customer_columns a) \<ge> c_created_at (customer_columns b))
         grouped"
    unfolding grouped_def by (rule sorted_order_by_desc)
  have r: "order_count row = int (length (orders_of db (customer_columns row)))
           \<and> total_spent row = sum_list (map o_total (orders_of db (customer_columns row)))
           \<and> (orders_of db (customer_columns row) = [] \<longrightarrow>
                order_count row = 0 \<and> total_spent row = 0)"
    if "row \<in> set grouped" for row
  proof -
    from that have "row \<in> set ?S" using m by (metis set_mset_mset)
    then obtain c where "row = customer_with_aggregates db c" by auto
    then show ?thesis by (simp add: customer_with_aggregates_def)
  qed
  show ?thesis using a m d s r by blast
qed

text \<open>
  Customer B has no orders: on the first page of one row it comes first, as the newest
  customer, with 0 orders and 0 spent.
\<close>

theorem customer_listing_rows_witness:
  "distinct (map c_id (customers new_customer_db))
   \<and> customers_get (\<lambda>xs. xs) sample_engine new_customer_db [''limit'' \<mapsto> ''1'']
       = Json new_customer_body
   \<and> orders_of new_customer_db (sample_customer 2 ''B'' ''b@example.com'' 2) = []
   \<and> (\<exists>grouped.
         customers_rows new_customer_body = take (nat 1) (drop (nat ((1 - 1) * 1)) grouped)
       \<and> mset grouped
           = mset (map (customer_with_aggregates new_customer_db)
               (filter (customer_qualifies [''limit'' \<mapsto> ''1'']) (customers new_customer_db)))
       \<and> distinct (map (\<lambda>row. c_id (customer_columns row)) grouped))"
proof -
  let ?q = "[''limit'' \<mapsto> ''1'']"
  have s: "mset ((\<lambda>xs. xs) xs) = mset xs" for xs :: "customer_listing_row list" by simp
  have pk: "distinct (map c_id (customers new_customer_db))"
    by (simp add: new_customer_db_def sample_customer_def)
  have r: "customers_get (\<lambda>xs. xs) sample_engine new_customer_db ?q = Json new_customer_body"
    by code_simp
  have p: "1 = number_or (parseInt (?q ''page'')) 1" by code_simp
  have l: "1 = number_or (parseInt (?q ''limit'')) 10" by code_simp
  have e: "orders_of new_customer_db (sample_customer 2 ''B'' ''b@example.com'' 2) = []"
    by code_simp
  from customer_listing_rows [of "\<lambda>xs. xs", OF s pk r p l] pk r e show ?thesis by blast
qed

end
